theory Spec2Isabelle
  imports Complex_Main "HOL-Library.Char_ord" "HOL-Library.List_Lexorder"
begin

section \<open>Data model: tables of cells\<close>

text \<open>
  The program keeps its datasets in pandas DataFrames. A frame is modelled as its list of
  column names and its list of rows, every row holding one cell per column, in column
  order. A cell is a number (the non-missing values of the int64 and float64 columns
  that \<^verbatim>\<open>pd.read_csv\<close> infers, taken as exact rationals), a text (object columns), or
  the missing value NaN.

  Numbers are exact here, while pandas holds them in 64 bits: an integer column turns
  into float64 when a concatenation or a comparison brings it together with missing
  values, float64 or uint64 cells, and an integer of magnitude above \<open>2 ^ 53\<close> may then
  be rounded. The operations below agree with pandas on the cells that \<open>safe_cell\<close>
  admits (every cell but such a larger integer); the properties that need the numbers
  to keep their exact values state that bound.
\<close>

datatype cell = Num rat | Str string | NaN

text \<open>
  A cell whose value int64 and float64 hold alike: not an integer of magnitude above
  \<open>2 ^ 53\<close>. A frame is safe when all its cells are.
\<close>

fun safe_cell :: "cell \<Rightarrow> bool" where
  "safe_cell (Num v) = (of_int \<lfloor>v\<rfloor> = v \<longrightarrow> \<bar>v\<bar> \<le> 2 ^ 53)"
| "safe_cell c = True"

record dataframe =
  columns :: "string list"
  rows :: "cell list list"

text \<open>\<^verbatim>\<open>pd.DataFrame()\<close>: no column, no row.\<close>

definition DataFrame :: dataframe where
  "DataFrame = \<lparr>columns = [], rows = []\<rparr>"

text \<open>\<^verbatim>\<open>df.empty\<close>: true when any axis has length 0.\<close>

definition df_empty :: "dataframe \<Rightarrow> bool" where
  "df_empty df \<longleftrightarrow> columns df = [] \<or> rows df = []"

text \<open>
  A safe frame, and a frame as pandas builds it: column labels are unique (\<^verbatim>\<open>read_csv\<close> renames repeated
  header names) and the table is rectangular.
\<close>

definition safe_frame :: "dataframe \<Rightarrow> bool" where
  "safe_frame df \<longleftrightarrow> list_all (list_all safe_cell) (rows df)"

definition wf_frame :: "dataframe \<Rightarrow> bool" where
  "wf_frame df \<longleftrightarrow>
     distinct (columns df) \<and> list_all (\<lambda>r. length r = length (columns df)) (rows df)"

text \<open>
  Exceptions the modelled code can meet. \<open>TimeoutExpired\<close> is the one
  \<^verbatim>\<open>subprocess.run(..., timeout=30)\<close> raises; \<open>KeyError\<close> is a column lookup that
  fails; \<open>TypeError\<close> is an ordering comparison between a number and a text;
  \<open>OtherException\<close> stands for every other exception of the environment (an I/O
  error, a CSV that does not parse), with its message.
\<close>

datatype exn = TimeoutExpired | KeyError string | TypeError | OtherException string

text \<open>The cell of row \<open>r\<close> under column \<open>c\<close>; a column the row does not have reads NaN.\<close>

definition cell_at :: "string list \<Rightarrow> cell list \<Rightarrow> string \<Rightarrow> cell" where
  "cell_at cols r c = (case map_of (zip cols r) c of Some v \<Rightarrow> v | None \<Rightarrow> NaN)"

text \<open>\<^verbatim>\<open>df[c]\<close>: the column as a series of cells, KeyError when there is no such column.\<close>

definition getitem :: "dataframe \<Rightarrow> string \<Rightarrow> exn + cell list" where
  "getitem df c =
     (if c \<in> set (columns df) then Inr (map (\<lambda>r. cell_at (columns df) r c) (rows df))
      else Inl (KeyError c))"

text \<open>
  \<^verbatim>\<open>Series.max()\<close>: missing values are skipped; a series with nothing else gives NaN;
  numbers compare with numbers and texts with texts, a mix raises TypeError.
\<close>

fun series_max_from :: "cell \<Rightarrow> cell list \<Rightarrow> exn + cell" where
  "series_max_from acc [] = Inr acc"
| "series_max_from acc (NaN # cs) = series_max_from acc cs"
| "series_max_from NaN (c # cs) = series_max_from c cs"
| "series_max_from (Num a) (Num b # cs) = series_max_from (Num (max a b)) cs"
| "series_max_from (Str a) (Str b # cs) = series_max_from (Str (max a b)) cs"
| "series_max_from (Num a) (Str b # cs) = Inl TypeError"
| "series_max_from (Str a) (Num b # cs) = Inl TypeError"

definition series_max :: "cell list \<Rightarrow> exn + cell" where
  "series_max cs = series_max_from NaN cs"

text \<open>
  \<^verbatim>\<open>series > m\<close>, cell by cell: a missing value on either side compares False,
  a number against a text raises TypeError. Numbers compare by their exact values, as
  pandas does on safe cells (it compares an int64 with a float64 in float64).
\<close>

fun gt_cell :: "cell \<Rightarrow> cell \<Rightarrow> exn + bool" where
  "gt_cell NaN m = Inr False"
| "gt_cell c NaN = Inr False"
| "gt_cell (Num a) (Num b) = Inr (b < a)"
| "gt_cell (Str a) (Str b) = Inr (b < a)"
| "gt_cell (Num a) (Str b) = Inl TypeError"
| "gt_cell (Str a) (Num b) = Inl TypeError"

fun series_gt :: "cell list \<Rightarrow> cell \<Rightarrow> exn + bool list" where
  "series_gt [] m = Inr []"
| "series_gt (c # cs) m =
     (case gt_cell c m of
        Inl e \<Rightarrow> Inl e
      | Inr b \<Rightarrow> (case series_gt cs m of Inl e \<Rightarrow> Inl e | Inr bs \<Rightarrow> Inr (b # bs)))"

text \<open>\<^verbatim>\<open>df[mask]\<close>: the rows whose mask entry is True, columns unchanged.\<close>

definition select_rows :: "dataframe \<Rightarrow> bool list \<Rightarrow> dataframe" where
  "select_rows df keep = df\<lparr>rows := map fst (filter snd (zip (rows df) keep))\<rparr>"

text \<open>
  \<^verbatim>\<open>pd.concat([a, b], ignore_index=True)\<close>: the columns of \<open>a\<close>, then those of \<open>b\<close> that
  \<open>a\<close> does not have; the rows of \<open>a\<close>, then the rows of \<open>b\<close>, each laid out on the joint
  columns with NaN where its frame has no such column. Cells are copied as they are,
  as pandas does on safe frames (a column it promotes to float64 keeps the values of
  its safe cells).
\<close>

definition reindex :: "string list \<Rightarrow> string list \<Rightarrow> cell list \<Rightarrow> cell list" where
  "reindex old new r = map (cell_at old r) new"

definition concat_frames :: "dataframe \<Rightarrow> dataframe \<Rightarrow> dataframe" where
  "concat_frames a b =
     (let cols = columns a @ filter (\<lambda>c. c \<notin> set (columns a)) (columns b)
      in \<lparr>columns = cols,
          rows = map (reindex (columns a) cols) (rows a) @
                 map (reindex (columns b) cols) (rows b)\<rparr>)"

section \<open>Incremental merger\<close>

text \<open>
  Lines 217 to 228 of \<^verbatim>\<open>RealTimeMetricsProcessor.process_incremental_data\<close>: the merge of
  the freshly parsed frame into the existing one. \<open>Inl\<close> is an exception raised on the
  way (the caller catches it).
\<close>

definition merge_new :: "dataframe option \<Rightarrow> dataframe \<Rightarrow> exn + dataframe" where
  "merge_new existing_df new_df =
     (case existing_df of
        None \<Rightarrow> Inr new_df
      | Some existing \<Rightarrow>
          if df_empty existing then Inr new_df
          else
            (case (if ''id'' \<in> set (columns existing)
                   then (case getitem existing ''id'' of
                           Inl e \<Rightarrow> Inl e | Inr ids \<Rightarrow> series_max ids)
                   else Inr (Num 0)) of
               Inl e \<Rightarrow> Inl e
             | Inr max_id \<Rightarrow>
                 (case getitem new_df ''id'' of
                    Inl e \<Rightarrow> Inl e
                  | Inr new_ids \<Rightarrow>
                      (case series_gt new_ids max_id of
                         Inl e \<Rightarrow> Inl e
                       | Inr keep \<Rightarrow>
                           (let new_df' = select_rows new_df keep
                            in if \<not> df_empty new_df'
                               then Inr (concat_frames existing new_df')
                               else Inr existing)))))"

section \<open>The environment: temporary files, the extraction engine, the CSV reader\<close>

text \<open>
  Both processors write the text to a temporary file, run
  \<^verbatim>\<open>subprocess.run(['perl', perl_script_path], stdin=..., capture_output=True, text=True, timeout=30)\<close>
  and hand its standard output to \<^verbatim>\<open>pd.read_csv\<close>. The Perl script and pandas are not
  part of the sources, so they are parameters:
  \<^item> \<open>mktemp\<close>: writing the temporary file; \<open>Some e\<close> is the exception it raised;
  \<^item> \<open>run_perl\<close>: script path and input text to the outcome of the run, either completed
    with a return code, standard output and standard error, or an exception
    (\<open>TimeoutExpired\<close> after 30 seconds, or any other);
  \<^item> \<open>read_csv\<close>: the frame parsed from the output, or the exception raised.

  Removing the temporary file (\<^verbatim>\<open>os.unlink\<close>) is taken to succeed.
\<close>

datatype proc = Completed int string string | Raised exn

record env =
  mktemp :: "string \<Rightarrow> exn option"
  run_perl :: "string \<Rightarrow> string \<Rightarrow> proc"
  read_csv :: "string \<Rightarrow> exn + dataframe"

text \<open>
  What the user interface is told: one constructor for each \<^verbatim>\<open>st.error\<close>,
  \<^verbatim>\<open>st.sidebar.success\<close> and \<^verbatim>\<open>st.sidebar.error\<close> call of the modelled functions, carrying
  the values the message interpolates.
\<close>

datatype ui_message =
    ErrorReadingFile string exn
  | ErrorProcessingIncremental exn
  | ErrorCreatingTempFile exn
  | ErrorProcessing string string
  | ProcessingTimeout string
  | ErrorRunningPerl string exn
  | ErrorCreatingTempFileFor string exn
  | SidebarSuccess string
  | SidebarError string

section \<open>Streaming path: \<^verbatim>\<open>RealTimeMetricsProcessor\<close>\<close>

record RealTimeMetricsProcessor =
  perl_script_path :: string
  last_position :: nat
  monitoring :: bool

text \<open>\<^verbatim>\<open>__init__\<close>.\<close>

definition RealTimeMetricsProcessor_init :: "string \<Rightarrow> RealTimeMetricsProcessor" where
  "RealTimeMetricsProcessor_init path =
     \<lparr>perl_script_path = path, last_position = 0, monitoring = False\<rparr>"

text \<open>
  A monitored path at the moment of a read: no such file, a file whose opening, seeking
  or reading raises, or a file with its content. Content and offsets are in bytes.
\<close>

datatype file_state = Missing | Unreadable exn | Readable string

text \<open>The ASCII characters \<^verbatim>\<open>str.strip()\<close> removes: codes 9 to 13, 28 to 31 and 32.\<close>

definition is_space :: "char \<Rightarrow> bool" where
  "is_space c \<longleftrightarrow> (let n = (of_char c :: nat) in (9 \<le> n \<and> n \<le> 13) \<or> (28 \<le> n \<and> n \<le> 32))"

definition strip :: "string \<Rightarrow> string" where
  "strip s = rev (dropWhile is_space (rev (dropWhile is_space s)))"

text \<open>
  \<^verbatim>\<open>read_new_data\<close>. \<^verbatim>\<open>f.seek(last_position); new_content = f.read(); last_position = f.tell()\<close>:
  the read returns what lies after the offset, and the offset moves on by what was
  read (a seek past the end reads nothing and stays where it is). The result is the new
  content, the processor with its cursor, and the messages shown.
\<close>

definition read_new_data ::
  "(string \<Rightarrow> file_state) \<Rightarrow> RealTimeMetricsProcessor \<Rightarrow> string \<Rightarrow>
   string option \<times> RealTimeMetricsProcessor \<times> ui_message list" where
  "read_new_data fs self file_path =
     (case fs file_path of
        Missing \<Rightarrow> (None, self, [])
      | Unreadable e \<Rightarrow> (None, self, [ErrorReadingFile file_path e])
      | Readable content \<Rightarrow>
          (let new_content = drop (last_position self) content;
               self' = self\<lparr>last_position := last_position self + length new_content\<rparr>
           in (if strip new_content \<noteq> [] then Some new_content else None, self', [])))"

text \<open>\<^verbatim>\<open>reset_position\<close>.\<close>

definition reset_position :: "RealTimeMetricsProcessor \<Rightarrow> RealTimeMetricsProcessor" where
  "reset_position self = self\<lparr>last_position := 0\<rparr>"

text \<open>
  \<^verbatim>\<open>process_incremental_data\<close>: the dataset returned and the messages shown. Every
  exception is caught inside the function, so it always returns.
\<close>

definition process_incremental_data ::
  "env \<Rightarrow> RealTimeMetricsProcessor \<Rightarrow> string \<Rightarrow> dataframe option \<Rightarrow>
   dataframe option \<times> ui_message list" where
  "process_incremental_data ev self new_content existing_df =
     (case mktemp ev new_content of
        Some e \<Rightarrow> (existing_df, [ErrorCreatingTempFile e])
      | None \<Rightarrow>
          (case run_perl ev (perl_script_path self) new_content of
             Raised e \<Rightarrow> (existing_df, [ErrorProcessingIncremental e])
           | Completed returncode stdout stderr \<Rightarrow>
               if returncode = 0 \<and> stdout \<noteq> [] then
                 (case read_csv ev stdout of
                    Inl e \<Rightarrow> (existing_df, [ErrorProcessingIncremental e])
                  | Inr new_df \<Rightarrow>
                      (case merge_new existing_df new_df of
                         Inl e \<Rightarrow> (existing_df, [ErrorProcessingIncremental e])
                       | Inr df \<Rightarrow> (Some df, [])))
               else (existing_df, [])))"

section \<open>Batch path: \<^verbatim>\<open>NetworkMetricsProcessor\<close>\<close>

record NetworkMetricsProcessor =
  batch_perl_script_path :: string

text \<open>\<^verbatim>\<open>df[c] = v\<close> with a scalar: every row gets \<open>v\<close> under \<open>c\<close>, a new last column if need be.\<close>

definition setitem :: "dataframe \<Rightarrow> string \<Rightarrow> cell \<Rightarrow> dataframe" where
  "setitem df c v =
     (if c \<in> set (columns df)
      then df\<lparr>rows := map (\<lambda>r. map (\<lambda>(k, x). if k = c then v else x) (zip (columns df) r))
                          (rows df)\<rparr>
      else \<lparr>columns = columns df @ [c], rows = map (\<lambda>r. r @ [v]) (rows df)\<rparr>)"

text \<open>
  The two handlers of the inner \<^verbatim>\<open>try\<close> of \<^verbatim>\<open>process_file\<close>:
  \<^verbatim>\<open>except subprocess.TimeoutExpired\<close> first, \<^verbatim>\<open>except Exception\<close> after it.
\<close>

fun run_failure :: "string \<Rightarrow> exn \<Rightarrow> ui_message" where
  "run_failure filename TimeoutExpired = ProcessingTimeout filename"
| "run_failure filename e = ErrorRunningPerl filename e"

text \<open>\<^verbatim>\<open>process_file\<close>: the dataset returned (\<open>None\<close> on failure) and the messages shown.\<close>

definition process_file ::
  "env \<Rightarrow> NetworkMetricsProcessor \<Rightarrow> string \<Rightarrow> string \<Rightarrow>
   dataframe option \<times> ui_message list" where
  "process_file ev self file_content filename =
     (case mktemp ev file_content of
        Some e \<Rightarrow> (None, [ErrorCreatingTempFileFor filename e])
      | None \<Rightarrow>
          (case run_perl ev (batch_perl_script_path self) file_content of
             Raised e \<Rightarrow> (None, [run_failure filename e])
           | Completed returncode stdout stderr \<Rightarrow>
               if returncode = 0 \<and> stdout \<noteq> [] then
                 (case read_csv ev stdout of
                    Inl e \<Rightarrow> (None, [run_failure filename e])
                  | Inr df \<Rightarrow> (Some (setitem df ''source_file'' (Str filename)), []))
               else (None, [ErrorProcessing filename stderr])))"

text \<open>
  The upload loop of \<^verbatim>\<open>non_real_time_tab\<close> (lines 667 to 679): the uploaded files are
  pairs of name and decoded content, \<^verbatim>\<open>st.session_state.processed_data\<close> is the
  insertion-ordered dictionary from names to datasets.
\<close>

fun process_uploads ::
  "env \<Rightarrow> NetworkMetricsProcessor \<Rightarrow> (string \<times> string) list \<Rightarrow>
   (string \<times> dataframe) list \<Rightarrow> (string \<times> dataframe) list \<times> ui_message list" where
  "process_uploads ev processor [] processed_data = (processed_data, [])"
| "process_uploads ev processor ((name, file_content) # uploaded_files) processed_data =
     (if name \<in> fst ` set processed_data
      then process_uploads ev processor uploaded_files processed_data
      else
        (case process_file ev processor file_content name of
           (df, shown) \<Rightarrow>
             (case (case df of None \<Rightarrow> None | Some d \<Rightarrow> if df_empty d then None else Some d) of
                Some d \<Rightarrow>
                  (case process_uploads ev processor uploaded_files
                          (processed_data @ [(name, d)]) of
                     (pd, later) \<Rightarrow> (pd, shown @ [SidebarSuccess name] @ later))
              | None \<Rightarrow>
                  (case process_uploads ev processor uploaded_files processed_data of
                     (pd, later) \<Rightarrow> (pd, shown @ [SidebarError name] @ later)))))"

section \<open>The streaming tab\<close>

text \<open>
  The session state the tab keeps between invocations (\<open>rt_data = None\<close>: the key is not
  in the session yet), and what one invocation reads from its widgets and the clock.
\<close>

record session_state =
  rt_data :: "dataframe option"
  rt_last_update :: "rat option"

record tab_inputs =
  log_file_path :: string
  monitoring_enabled :: bool
  reset_clicked :: bool
  now :: rat

text \<open>
  \<^verbatim>\<open>real_time_tab\<close>, lines 489 to 565, without the rendering: the processor is built,
  the session keys are initialised, the reset button is served (it is disabled while the
  path is empty), and with monitoring on the file is read and the new content processed.
  \<^verbatim>\<open>st.rerun()\<close> then starts the next invocation on the session state returned here.
\<close>

definition real_time_tab ::
  "env \<Rightarrow> (string \<Rightarrow> file_state) \<Rightarrow> tab_inputs \<Rightarrow> session_state \<Rightarrow>
   session_state \<times> ui_message list" where
  "real_time_tab ev fs inp ss =
     (let rt_processor = RealTimeMetricsProcessor_init ''scripts/script.pl'';
          ss1 = (case rt_data ss of None \<Rightarrow> ss\<lparr>rt_data := Some DataFrame\<rparr> | Some d \<Rightarrow> ss);
          reset = reset_clicked inp \<and> log_file_path inp \<noteq> [];
          ss2 = (if reset then ss1\<lparr>rt_data := Some DataFrame, rt_last_update := None\<rparr> else ss1);
          rt_processor2 = (if reset then reset_position rt_processor else rt_processor)
      in if monitoring_enabled inp \<and> log_file_path inp \<noteq> [] then
           (case read_new_data fs rt_processor2 (log_file_path inp) of
              (new_content, rt_processor3, shown) \<Rightarrow>
                (case new_content of
                   None \<Rightarrow> (ss2, shown)
                 | Some text \<Rightarrow>
                     if text = [] then (ss2, shown)
                     else
                       (case process_incremental_data ev rt_processor3 text (rt_data ss2) of
                          (updated_df, shown2) \<Rightarrow>
                            (case updated_df of
                               None \<Rightarrow> (ss2, shown @ shown2)
                             | Some d \<Rightarrow>
                                 (ss2\<lparr>rt_data := Some d, rt_last_update := Some (now inp)\<rparr>,
                                  shown @ shown2)))))
         else (ss2, []))"

section \<open>Vocabulary of the properties\<close>

text \<open>The id cell of a row of a frame, and the id cells of a frame in row order.\<close>

definition id_of :: "dataframe \<Rightarrow> cell list \<Rightarrow> cell" where
  "id_of df r = cell_at (columns df) r ''id''"

definition id_values :: "dataframe \<Rightarrow> cell list" where
  "id_values df = map (id_of df) (rows df)"

fun is_text :: "cell \<Rightarrow> bool" where
  "is_text (Str s) = True"
| "is_text c = False"

fun is_num :: "cell \<Rightarrow> bool" where
  "is_num (Num v) = True"
| "is_num c = False"

text \<open>
  An id as the data model has it, an integer, of magnitude at most \<open>2 ^ 53\<close> so that
  int64 and float64 hold it alike; and a cell of an id column: such an id or a missing
  value.
\<close>

fun exact_int :: "cell \<Rightarrow> bool" where
  "exact_int (Num v) = (of_int \<lfloor>v\<rfloor> = v \<and> \<bar>v\<bar> \<le> 2 ^ 53)"
| "exact_int c = False"

fun id_cell :: "cell \<Rightarrow> bool" where
  "id_cell NaN = True"
| "id_cell c = exact_int c"

text \<open>The numbers among a list of cells, in order.\<close>

fun nums :: "cell list \<Rightarrow> rat list" where
  "nums [] = []"
| "nums (Num v # cs) = v # nums cs"
| "nums (c # cs) = nums cs"

text \<open>A cell that holds a number strictly above \<open>m\<close>.\<close>

fun id_above :: "rat \<Rightarrow> cell \<Rightarrow> bool" where
  "id_above m (Num v) = (m < v)"
| "id_above m c = False"


text \<open>
  A sequence of merges: each newly extracted frame is merged into the dataset so far;
  a merge that raises leaves the dataset as it was (the handler of
  \<^verbatim>\<open>process_incremental_data\<close> returns \<^verbatim>\<open>existing_df\<close>).
\<close>

fun merge_all :: "dataframe \<Rightarrow> dataframe list \<Rightarrow> dataframe" where
  "merge_all d [] = d"
| "merge_all d (n # ns) =
     merge_all (case merge_new (Some d) n of Inr d' \<Rightarrow> d' | Inl e \<Rightarrow> d) ns"

text \<open>
  Feeding chunks of text one at a time to \<^verbatim>\<open>process_incremental_data\<close>, the dataset
  of each call being the one the call before returned, as lines 552 to 554 of
  \<^verbatim>\<open>real_time_tab\<close> keep it.
\<close>

fun stream :: "env \<Rightarrow> RealTimeMetricsProcessor \<Rightarrow> string list \<Rightarrow> dataframe \<Rightarrow> dataframe" where
  "stream ev self [] d = d"
| "stream ev self (chunk # chunks) d =
     stream ev self chunks
       (case fst (process_incremental_data ev self chunk (Some d)) of
          Some d' \<Rightarrow> d' | None \<Rightarrow> d)"

text \<open>
  The extraction step both processors share (lines 198 to 215 and 268 to 285): the
  frame parsed from the engine's output when the temporary file is written, the engine
  returns status 0 with some output and the output parses; \<open>None\<close> otherwise.
\<close>

definition extract_frame :: "env \<Rightarrow> string \<Rightarrow> string \<Rightarrow> dataframe option" where
  "extract_frame ev script text =
     (case mktemp ev text of
        Some e \<Rightarrow> None
      | None \<Rightarrow>
          (case run_perl ev script text of
             Raised e \<Rightarrow> None
           | Completed returncode stdout stderr \<Rightarrow>
               if returncode = 0 \<and> stdout \<noteq> [] then
                 (case read_csv ev stdout of Inl e \<Rightarrow> None | Inr df \<Rightarrow> Some df)
               else None))"

text \<open>The source a failure message of the batch path names.\<close>

fun failure_source :: "ui_message \<Rightarrow> string option" where
  "failure_source (ErrorProcessing filename stderr) = Some filename"
| "failure_source (ProcessingTimeout filename) = Some filename"
| "failure_source (ErrorRunningPerl filename e) = Some filename"
| "failure_source (ErrorCreatingTempFileFor filename e) = Some filename"
| "failure_source m = None"

text \<open>
  A run of a cursor tracker: reads of a path in the file system of the moment, and
  resets.
\<close>

datatype tracker_op = Read "string \<Rightarrow> file_state" string | Reset

fun run_ops :: "RealTimeMetricsProcessor \<Rightarrow> tracker_op list \<Rightarrow> RealTimeMetricsProcessor" where
  "run_ops self [] = self"
| "run_ops self (Read fs file_path # ops) = run_ops (fst (snd (read_new_data fs self file_path))) ops"
| "run_ops self (Reset # ops) = run_ops (reset_position self) ops"

section \<open>Example data\<close>

text \<open>
  The example of the specification: an existing dataset with maximum id 6 and newly
  extracted records with ids 5, 6 and 7.
\<close>

definition eg_existing :: dataframe where
  "eg_existing = \<lparr>columns = [''id'', ''latency''], rows = [[Num 4, Num 10], [Num 6, Num 11]]\<rparr>"

definition eg_new :: dataframe where
  "eg_new = \<lparr>columns = [''id'', ''latency''],
             rows = [[Num 5, Num 20], [Num 6, Num 21], [Num 7, Num 22]]\<rparr>"

text \<open>A dataset without an id column, and records whose ids start at 0.\<close>

definition eg_no_id :: dataframe where
  "eg_no_id = \<lparr>columns = [''latency''], rows = [[Num 10]]\<rparr>"

definition eg_from_zero :: dataframe where
  "eg_from_zero = \<lparr>columns = [''id'', ''latency''], rows = [[Num 0, Num 20], [Num 1, Num 21]]\<rparr>"

text \<open>
  Records already merged into the example dataset, and an environment whose engine
  succeeds and whose output parses to a given frame.
\<close>

definition eg_stale :: dataframe where
  "eg_stale = \<lparr>columns = [''id'', ''latency''], rows = [[Num 4, Num 10], [Num 6, Num 21]]\<rparr>"

definition eg_env :: "dataframe \<Rightarrow> env" where
  "eg_env df = \<lparr>mktemp = (\<lambda>t. None), run_perl = (\<lambda>script t. Completed 0 ''id,latency'' []),
               read_csv = (\<lambda>out. Inr df)\<rparr>"

text \<open>
  An environment whose engine ends in a given outcome and whose output never parses.
\<close>

definition eg_failing_env :: "proc \<Rightarrow> env" where
  "eg_failing_env outcome =
     \<lparr>mktemp = (\<lambda>t. None), run_perl = (\<lambda>script t. outcome),
      read_csv = (\<lambda>out. Inl (OtherException ''Error tokenizing data''))\<rparr>"

text \<open>
  A batch environment whose engine succeeds on the text \<open>good\<close> and exceeds its timeout on
  every other text, and a batch processor with the default script path.
\<close>

definition eg_batch_env :: env where
  "eg_batch_env =
     \<lparr>mktemp = (\<lambda>t. None),
      run_perl = (\<lambda>script t. if t = ''good'' then Completed 0 ''id,latency'' [] else Raised TimeoutExpired),
      read_csv = (\<lambda>out. Inr eg_new)\<rparr>"

definition eg_batch_processor :: NetworkMetricsProcessor where
  "eg_batch_processor = \<lparr>batch_perl_script_path = ''scripts/script.pl''\<rparr>"

text \<open>
  A file system with one monitored file, \<open>rt.log\<close>, of a given content; a fresh tracker;
  the inputs of a tab invocation that monitors \<open>rt.log\<close>.
\<close>

definition eg_fs :: "string \<Rightarrow> string \<Rightarrow> file_state" where
  "eg_fs content path = (if path = ''rt.log'' then Readable content else Missing)"

definition eg_tracker :: RealTimeMetricsProcessor where
  "eg_tracker = RealTimeMetricsProcessor_init ''scripts/script.pl''"

text \<open>
  Successive invocations of the tab (each \<^verbatim>\<open>st.rerun()\<close> starts the next one), every
  invocation with the file system and the inputs of its moment.
\<close>

fun poll :: "env \<Rightarrow> ((string \<Rightarrow> file_state) \<times> tab_inputs) list \<Rightarrow> session_state \<Rightarrow> session_state" where
  "poll ev [] ss = ss"
| "poll ev ((fs, inp) # later) ss = poll ev later (fst (real_time_tab ev fs inp ss))"

text \<open>
  The content of the monitored file at an invocation.
\<close>

definition file_text :: "(string \<Rightarrow> file_state) \<times> tab_inputs \<Rightarrow> string" where
  "file_text it = (case fst it (log_file_path (snd it)) of Readable content \<Rightarrow> content | _ \<Rightarrow> [])"

text \<open>
  An invocation with monitoring on, no reset, and a readable monitored file that holds
  more than white space.
\<close>

definition monitored :: "(string \<Rightarrow> file_state) \<times> tab_inputs \<Rightarrow> bool" where
  "monitored it \<longleftrightarrow>
     monitoring_enabled (snd it) \<and> \<not> reset_clicked (snd it) \<and> log_file_path (snd it) \<noteq> [] \<and>
     (case fst it (log_file_path (snd it)) of
        Readable content \<Rightarrow> strip content \<noteq> [] | _ \<Rightarrow> False)"

definition eg_inputs :: tab_inputs where
  "eg_inputs = \<lparr>log_file_path = ''rt.log'', monitoring_enabled = True, reset_clicked = False, now = 0\<rparr>"

section \<open>The extraction engine and its reader, from the specification\<close>

text \<open>
  Modelled from the spec: the extraction engine \<^verbatim>\<open>scripts/script.pl\<close>, which is not among
  the sources. Section 6 of the specification gives its input and output: the log is a
  sequence of lines; a measurement block is anchored by a line
  \<^verbatim>\<open><id> KPM ind_msg latency = <integer> [us]\<close> (the unit written with the Greek letter mu,
  two bytes in UTF-8) and followed by lines \<^verbatim>\<open><Namespace>.<Field> = <value> [<unit>]\<close>; the
  engine writes one tabular row per block under the columns id, latency,
  PdcpSduVolumeDL, PdcpSduVolumeUL, RlcSduDelayDl, UEThpDl, UEThpUl, PrbTotDl, PrbTotUl,
  after a header row of the field names. Lines are split at newlines and words at
  blanks; a line that is neither an anchor nor a metric is skipped, and so is a metric
  before the first anchor.
\<close>

definition is_digit :: "char \<Rightarrow> bool" where
  "is_digit c \<longleftrightarrow> c \<in> set ''0123456789''"

definition all_digits :: "string \<Rightarrow> bool" where
  "all_digits s \<longleftrightarrow> s \<noteq> [] \<and> list_all is_digit s"

fun split_on :: "char \<Rightarrow> string \<Rightarrow> string list" where
  "split_on d [] = [[]]"
| "split_on d (c # cs) =
     (if c = d then [] # split_on d cs
      else (case split_on d cs of [] \<Rightarrow> [[c]] | w # ws \<Rightarrow> (c # w) # ws))"

definition words_of :: "string \<Rightarrow> string list" where
  "words_of s = filter (\<lambda>w. w \<noteq> []) (split_on CHR '' '' s)"

definition micro_unit :: string where
  "micro_unit = [CHR ''['', CHR 0xCE, CHR 0xBC, CHR ''s'', CHR '']'']"

definition parse_anchor :: "string \<Rightarrow> (string \<times> string) option" where
  "parse_anchor l =
     (case words_of l of
        [i, k, m, n, e, lat, u] \<Rightarrow>
          if all_digits i \<and> k = ''KPM'' \<and> m = ''ind_msg'' \<and> n = ''latency'' \<and> e = ''=''
             \<and> all_digits lat \<and> u = micro_unit
          then Some (i, lat) else None
      | _ \<Rightarrow> None)"

definition metric_fields :: "string list" where
  "metric_fields = [''PdcpSduVolumeDL'', ''PdcpSduVolumeUL'', ''RlcSduDelayDl'', ''UEThpDl'',
     ''UEThpUl'', ''PrbTotDl'', ''PrbTotUl'']"

definition parse_metric :: "string \<Rightarrow> (string \<times> string) option" where
  "parse_metric l =
     (case words_of l of
        [name, e, v, u] \<Rightarrow>
          (case split_on CHR ''.'' name of
             [ns, field] \<Rightarrow>
               if e = ''='' \<and> ns \<noteq> [] \<and> field \<in> set metric_fields \<and> v \<noteq> []
                  \<and> hd u = CHR ''['' \<and> last u = CHR '']''
               then Some (field, v) else None
           | _ \<Rightarrow> None)
      | _ \<Rightarrow> None)"

fun blocks_of :: "string list \<Rightarrow> (string \<times> string) list list \<Rightarrow> (string \<times> string) list list" where
  "blocks_of [] done = rev done"
| "blocks_of (l # ls) done =
     (case parse_anchor l of
        Some (i, lat) \<Rightarrow> blocks_of ls ([(''id'', i), (''latency'', lat)] # done)
      | None \<Rightarrow>
          (case (parse_metric l, done) of
             (Some (f, v), b # bs) \<Rightarrow> blocks_of ls ((b @ [(f, v)]) # bs)
           | _ \<Rightarrow> blocks_of ls done))"

fun join :: "char \<Rightarrow> string list \<Rightarrow> string" where
  "join d [] = []"
| "join d [w] = w"
| "join d (w # ws) = w @ d # join d ws"

definition csv_columns :: "string list" where
  "csv_columns = ''id'' # ''latency'' # metric_fields"

definition csv_row :: "(string \<times> string) list \<Rightarrow> string" where
  "csv_row b = join CHR '','' (map (\<lambda>c. case map_of (rev b) c of Some v \<Rightarrow> v | None \<Rightarrow> []) csv_columns)"

text \<open>
  Modelled from the spec: one run of the extraction engine, which always completes with
  status 0 and prints the header row and one row per block, fields separated by commas,
  a field the block does not have left empty.
\<close>

definition spec_engine :: "string \<Rightarrow> string \<Rightarrow> proc" where
  "spec_engine script text =
     Completed 0
       (concat (map (\<lambda>l. l @ [CHR 0x0A])
          (join CHR '','' csv_columns # map csv_row (blocks_of (split_on CHR 0x0A text) []))))
       []"

text \<open>
  Modelled from the spec: the reader of the engine's output (section 4.2: line-structured
  tabular text, a header row of field names followed by one row per extracted record),
  standing for \<^verbatim>\<open>pd.read_csv\<close> on that shape. An empty field is NaN, a decimal number a
  number, anything else a text; no line at all, a repeated column name or a row of
  another width than the header raises.
\<close>

definition digit_val :: "char \<Rightarrow> nat" where
  "digit_val c = of_char c - 48"

definition nat_of_digits :: "string \<Rightarrow> nat" where
  "nat_of_digits s = foldl (\<lambda>n c. 10 * n + digit_val c) 0 s"

definition parse_unsigned :: "string \<Rightarrow> rat option" where
  "parse_unsigned s =
     (case split_on CHR ''.'' s of
        [a] \<Rightarrow> if all_digits a then Some (of_nat (nat_of_digits a)) else None
      | [a, b] \<Rightarrow>
          if all_digits a \<and> all_digits b
          then Some (of_nat (nat_of_digits a) + of_nat (nat_of_digits b) / of_nat (10 ^ length b))
          else None
      | _ \<Rightarrow> None)"

definition parse_cell :: "string \<Rightarrow> cell" where
  "parse_cell s =
     (if s = [] then NaN
      else (case (case s of c # t \<Rightarrow> if c = CHR ''-'' then map_option uminus (parse_unsigned t)
                                        else parse_unsigned s
                           | [] \<Rightarrow> None) of
              Some q \<Rightarrow> Num q | None \<Rightarrow> Str s))"

definition spec_read_csv :: "string \<Rightarrow> exn + dataframe" where
  "spec_read_csv out =
     (case filter (\<lambda>l. l \<noteq> []) (split_on CHR 0x0A out) of
        [] \<Rightarrow> Inl (OtherException ''No columns to parse from file'')
      | h # ls \<Rightarrow>
          (let cols = split_on CHR '','' h;
               rs = map (\<lambda>l. map parse_cell (split_on CHR '','' l)) ls
           in if distinct cols \<and> list_all (\<lambda>r. length r = length cols) rs
              then Inr \<lparr>columns = cols, rows = rs\<rparr>
              else Inl (OtherException ''Error tokenizing data'')))"

text \<open>
  Modelled from the spec: the environment made of this engine and this reader; the
  temporary file is always written.
\<close>

definition spec_env :: env where
  "spec_env = \<lparr>mktemp = (\<lambda>t. None), run_perl = spec_engine, read_csv = spec_read_csv\<rparr>"

section \<open>Example logs\<close>


text \<open>
  An anchor line of the log, a log of two blocks cut between the blocks, and a log of
  one block cut inside its anchor line, after 17 bytes.
\<close>

definition kpm_line :: "string \<Rightarrow> string \<Rightarrow> string" where
  "kpm_line i lat = i @ '' KPM ind_msg latency = '' @ lat @ '' '' @ micro_unit @ [CHR 0x0A]"

definition eg_block_chunks :: "string list" where
  "eg_block_chunks = [kpm_line ''1'' ''7'', kpm_line ''2'' ''9'']"

definition eg_split_chunks :: "string list" where
  "eg_split_chunks = [take 17 (kpm_line ''1'' ''7''), drop 17 (kpm_line ''1'' ''7'')]"

text \<open>
  The frame the reader gives for rows that hold an id and a latency only.
\<close>

definition spec_frame :: "rat list list \<Rightarrow> dataframe" where
  "spec_frame rs = \<lparr>columns = csv_columns, rows = map (\<lambda>r. map Num r @ replicate 7 NaN) rs\<rparr>"

text \<open>
  A streaming processor with the default script path.
\<close>

definition eg_streaming_processor :: RealTimeMetricsProcessor where
  "eg_streaming_processor = RealTimeMetricsProcessor_init ''scripts/script.pl''"

section \<open>Properties of the incremental merger\<close>

lemma Max_insert_max:
  "Max (insert (max a b) (set xs)) = Max (insert a (insert b (set xs)))" for a :: rat
  by (metis List.finite_set Max_insert Max_singleton finite.insertI insert_not_empty max.assoc)

lemma series_max_from_Num:
  "list_all (\<lambda>c. \<not> is_text c) cs \<Longrightarrow>
   series_max_from (Num a) cs = Inr (Num (Max (insert a (set (nums cs)))))"
proof (induction cs arbitrary: a)
  case Nil then show ?case by simp
next
  case (Cons c cs)
  then show ?case by (cases c) (simp_all add: Max_insert_max)
qed

lemma series_max_numeric:
  "list_all (\<lambda>c. \<not> is_text c) cs \<Longrightarrow>
   series_max cs = Inr (if nums cs = [] then NaN else Num (Max (set (nums cs))))"
  unfolding series_max_def
proof (induction cs)
  case Nil then show ?case by simp
next
  case (Cons c cs)
  then show ?case by (cases c) (simp_all add: series_max_from_Num)
qed

lemma series_gt_numeric:
  "list_all (\<lambda>c. \<not> is_text c) cs \<Longrightarrow> series_gt cs (Num m) = Inr (map (id_above m) cs)"
proof (induction cs)
  case Nil then show ?case by simp
next
  case (Cons c cs)
  then show ?case by (cases c) simp_all
qed

lemma filter_zip_map: "map fst (filter snd (zip rs (map f rs))) = filter f rs"
  by (induction rs) auto

lemma select_rows_id_above:
  "select_rows df (map (id_above m) (id_values df)) =
   df\<lparr>rows := filter (\<lambda>r. id_above m (id_of df r)) (rows df)\<rparr>"
proof -
  have "map (id_above m) (id_values df) = map (\<lambda>r. id_above m (id_of df r)) (rows df)"
    by (simp add: id_values_def)
  then show ?thesis by (simp add: select_rows_def filter_zip_map)
qed

lemma getitem_id: "''id'' \<in> set (columns df) \<Longrightarrow> getitem df ''id'' = Inr (id_values df)"
  by (simp add: getitem_def id_values_def id_of_def)



lemma cell_at_reindex:
  "cell_at new (reindex old new r) c = (if c \<in> set new then cell_at old r c else NaN)"
  by (simp add: cell_at_def reindex_def map_of_zip_map)

lemma cell_at_absent: "c \<notin> set cols \<Longrightarrow> cell_at cols r c = NaN"
proof -
  assume "c \<notin> set cols"
  then have "map_of (zip cols r) c = None"
    by (metis map_of_SomeD not_Some_eq set_zip_leftD)
  then show ?thesis by (simp add: cell_at_def)
qed

lemma id_values_concat:
  assumes "''id'' \<in> set (columns a) \<or> ''id'' \<in> set (columns b)"
  shows "id_values (concat_frames a b) = id_values a @ id_values b"
proof -
  let ?cols = "columns a @ filter (\<lambda>c. c \<notin> set (columns a)) (columns b)"
  have in_cols: "''id'' \<in> set ?cols" using assms by auto
  have b: "''id'' \<in> set (columns a) \<or> ''id'' \<in> set (columns b)" by (rule assms)
  show ?thesis
    using in_cols
    by (simp add: id_values_def id_of_def concat_frames_def Let_def cell_at_reindex
        del: set_append set_filter)
qed

lemma id_values_filter:
  "id_values (df\<lparr>rows := filter (\<lambda>r. P (id_of df r)) (rows df)\<rparr>) = filter P (id_values df)"
  by (simp add: id_values_def id_of_def filter_map comp_def)

lemma merge_new_numeric:
  assumes "\<not> df_empty existing" "''id'' \<in> set (columns existing)"
    and "list_all (\<lambda>c. \<not> is_text c) (id_values existing)" "nums (id_values existing) \<noteq> []"
    and "''id'' \<in> set (columns new_df)" "list_all (\<lambda>c. \<not> is_text c) (id_values new_df)"
  shows "merge_new (Some existing) new_df =
     Inr (let kept = filter (\<lambda>r. id_above (Max (set (nums (id_values existing)))) (id_of new_df r))
                        (rows new_df)
          in if kept = [] then existing else concat_frames existing (new_df\<lparr>rows := kept\<rparr>))"
proof -
  have cols: "columns new_df \<noteq> []" using assms(5) by auto
  show ?thesis
    using assms cols
    by (simp add: merge_new_def getitem_id series_max_numeric series_gt_numeric
        select_rows_id_above df_empty_def Let_def)
qed

lemma id_cell_not_text: "list_all id_cell cs \<Longrightarrow> list_all (\<lambda>c. \<not> is_text c) cs"
proof (induction cs)
  case Nil then show ?case by simp
next
  case (Cons c cs)
  then show ?case by (cases c) simp_all
qed

lemma exact_int_is_num: "list_all exact_int cs \<Longrightarrow> list_all is_num cs"
proof (induction cs)
  case Nil then show ?case by simp
next
  case (Cons c cs)
  then show ?case by (cases c) simp_all
qed


lemmas eg_defs = eg_existing_def eg_new_def eg_no_id_def eg_from_zero_def



section \<open>The extraction step and the merge\<close>

lemma process_incremental_data_extracted:
  "extract_frame ev (perl_script_path self) text = Some n \<Longrightarrow>
   fst (process_incremental_data ev self text ex) =
     (case merge_new ex n of Inr d \<Rightarrow> Some d | Inl e \<Rightarrow> ex)"
  by (auto simp: extract_frame_def process_incremental_data_def
      split: option.splits proc.splits if_splits sum.splits)

lemma process_incremental_data_not_extracted:
  "extract_frame ev (perl_script_path self) text = None \<Longrightarrow>
   fst (process_incremental_data ev self text ex) = ex"
  by (auto simp: extract_frame_def process_incremental_data_def
      split: option.splits proc.splits if_splits sum.splits)

lemma filter_id_above_none:
  assumes "\<forall>c \<in> set cs. \<exists>v. c = Num v \<and> v \<le> m"
  shows "filter (id_above m) cs = []"
  using assms by (induction cs) auto

lemma no_text_if_num:
  assumes "\<forall>c \<in> set cs. \<exists>v. c = Num v \<and> P v"
  shows "list_all (\<lambda>c. \<not> is_text c) cs"
  using assms by (induction cs) auto

text \<open>
  Claim C2. For a non-empty dataset \<open>D\<close> whose id column holds numbers, merging a chunk
  of extracted records whose ids are all numbers at most the maximum id of \<open>D\<close> returns
  \<open>D\<close> itself, at the merge and through \<^verbatim>\<open>process_incremental_data\<close>.
\<close>

theorem merge_redelivered_chunk_is_noop:
  assumes "\<not> df_empty D" and "''id'' \<in> set (columns D)"
    and "list_all (\<lambda>c. \<not> is_text c) (id_values D)"
    and "nums (id_values D) \<noteq> []"
    and "''id'' \<in> set (columns chunk)"
    and "\<forall>c \<in> set (id_values chunk). \<exists>v. c = Num v \<and> v \<le> Max (set (nums (id_values D)))"
  shows "merge_new (Some D) chunk = Inr D \<and>
         (\<forall>ev self text. extract_frame ev (perl_script_path self) text = Some chunk \<longrightarrow>
            fst (process_incremental_data ev self text (Some D)) = Some D)"
proof -
  let ?m = "Max (set (nums (id_values D)))"
  have nt: "list_all (\<lambda>c. \<not> is_text c) (id_values chunk)"
    using assms(6) by (rule no_text_if_num)
  have "filter (id_above ?m) (id_values chunk) = []"
    using assms(6) by (rule filter_id_above_none)
  then have "filter (\<lambda>r. id_above ?m (id_of chunk r)) (rows chunk) = []"
    by (simp add: id_values_def filter_map comp_def)
  then have m: "merge_new (Some D) chunk = Inr D"
    using merge_new_numeric[OF assms(1-5) nt] by (simp add: Let_def)
  then show ?thesis
    by (simp add: process_incremental_data_extracted)
qed

theorem merge_redelivered_chunk_is_noop_witness:
  "\<not> df_empty eg_existing \<and> ''id'' \<in> set (columns eg_existing) \<and>
   list_all (\<lambda>c. \<not> is_text c) (id_values eg_existing) \<and> nums (id_values eg_existing) \<noteq> [] \<and>
   ''id'' \<in> set (columns eg_stale) \<and>
   id_values eg_stale = [Num 4, Num 6] \<and> Max (set (nums (id_values eg_existing))) = 6 \<and>
   merge_new (Some eg_existing) eg_stale = Inr eg_existing \<and>
   extract_frame (eg_env eg_stale) ''scripts/script.pl'' ''log'' = Some eg_stale \<and>
   fst (process_incremental_data (eg_env eg_stale) (RealTimeMetricsProcessor_init ''scripts/script.pl'')
          ''log'' (Some eg_existing)) = Some eg_existing"
proof -
  have h1: "\<not> df_empty eg_existing" by (simp add: df_empty_def eg_defs)
  have h2: "''id'' \<in> set (columns eg_existing)" by (simp add: eg_defs)
  have ids: "id_values eg_existing = [Num 4, Num 6]"
    by (simp add: id_values_def id_of_def cell_at_def eg_defs)
  have h3: "list_all (\<lambda>c. \<not> is_text c) (id_values eg_existing)" by (simp add: ids)
  have h4: "nums (id_values eg_existing) \<noteq> []" by (simp add: ids)
  have h5: "''id'' \<in> set (columns eg_stale)" by (simp add: eg_stale_def)
  have nids: "id_values eg_stale = [Num 4, Num 6]"
    by (simp add: id_values_def id_of_def cell_at_def eg_stale_def)
  have h6: "\<forall>c \<in> set (id_values eg_stale). \<exists>v. c = Num v \<and> v \<le> Max (set (nums (id_values eg_existing)))"
    by (simp add: ids nids)
  have ex: "extract_frame (eg_env eg_stale) ''scripts/script.pl'' ''log'' = Some eg_stale"
    by (simp add: extract_frame_def eg_env_def)
  have p: "perl_script_path (RealTimeMetricsProcessor_init ''scripts/script.pl'') = ''scripts/script.pl''"
    by (simp add: RealTimeMetricsProcessor_init_def)
  note t = merge_redelivered_chunk_is_noop[OF h1 h2 h3 h4 h5 h6]
  from t ex p have "fst (process_incremental_data (eg_env eg_stale)
      (RealTimeMetricsProcessor_init ''scripts/script.pl'') ''log'' (Some eg_existing)) = Some eg_existing"
    by simp
  moreover have "Max (set (nums (id_values eg_existing))) = 6" by (simp add: ids)
  ultimately show ?thesis using t h1 h2 h3 h4 h5 nids ex by blast
qed

text \<open>
  Claim C8 as stated fails: with no id column in the existing dataset \<open>max_id\<close> is 0 and
  the new record with id 0 is dropped, so not every new record is accepted.
\<close>

theorem merge_without_id_column_drops_nonpositive:
  "''id'' \<notin> set (columns eg_no_id) \<and> \<not> df_empty eg_no_id \<and>
   id_values eg_from_zero = [Num 0, Num 1] \<and>
   merge_new (Some eg_no_id) eg_from_zero =
     Inr \<lparr>columns = [''latency'', ''id''], rows = [[Num 10, NaN], [Num 21, Num 1]]\<rparr>"
  by (simp add: merge_new_def df_empty_def eg_defs getitem_def cell_at_def select_rows_def
      concat_frames_def reindex_def id_values_def id_of_def Let_def)

lemma merge_new_no_id_column:
  assumes "\<not> df_empty existing" "''id'' \<notin> set (columns existing)"
    and "''id'' \<in> set (columns new_df)" "list_all (\<lambda>c. \<not> is_text c) (id_values new_df)"
  shows "merge_new (Some existing) new_df =
     Inr (let kept = filter (\<lambda>r. id_above 0 (id_of new_df r)) (rows new_df)
          in if kept = [] then existing else concat_frames existing (new_df\<lparr>rows := kept\<rparr>))"
proof -
  have cols: "columns new_df \<noteq> []" using assms(3) by auto
  show ?thesis
    using assms cols
    by (simp add: merge_new_def getitem_id series_gt_numeric
        select_rows_id_above df_empty_def Let_def)
qed

text \<open>
  Claim C8, amended. When the non-empty existing dataset has no id column and the new
  records have an id column of ids (integers of magnitude at most \<open>2 ^ 53\<close>, or missing),
  both frames safe, the merge does not fail: \<open>max_id\<close> is 0, it keeps exactly the new
  rows whose id is above 0, and so all of them when every new id is positive. New
  records that have no id column themselves raise KeyError in the merge, which
  \<^verbatim>\<open>process_incremental_data\<close> catches: it returns the dataset it was given.
\<close>

theorem merge_without_id_column_keeps_positive_ids:
  assumes "\<not> df_empty existing" and "''id'' \<notin> set (columns existing)"
    and "''id'' \<in> set (columns new_df)"
    and "list_all id_cell (id_values new_df)"
    and "safe_frame existing" and "safe_frame new_df"
  shows "let kept = filter (\<lambda>r. id_above 0 (id_of new_df r)) (rows new_df)
         in merge_new (Some existing) new_df =
              Inr (if kept = [] then existing else concat_frames existing (new_df\<lparr>rows := kept\<rparr>)) \<and>
            (list_all (id_above 0) (id_values new_df) \<and> rows new_df \<noteq> [] \<longrightarrow>
               merge_new (Some existing) new_df = Inr (concat_frames existing new_df)) \<and>
            (\<forall>other. ''id'' \<notin> set (columns other) \<longrightarrow>
               merge_new (Some existing) other = Inl (KeyError ''id'') \<and>
               (\<forall>ev self text.
                  extract_frame ev (perl_script_path self) text = Some other \<longrightarrow>
                  fst (process_incremental_data ev self text (Some existing)) = Some existing))"
proof -
  define kept where "kept = filter (\<lambda>r. id_above 0 (id_of new_df r)) (rows new_df)"
  have k: "merge_new (Some existing) other = Inl (KeyError ''id'')"
    if "''id'' \<notin> set (columns other)" for other
    using assms(1,2) that by (simp add: merge_new_def getitem_def)
  have 3: "\<forall>other. ''id'' \<notin> set (columns other) \<longrightarrow>
      merge_new (Some existing) other = Inl (KeyError ''id'') \<and>
      (\<forall>ev self text.
         extract_frame ev (perl_script_path self) text = Some other \<longrightarrow>
         fst (process_incremental_data ev self text (Some existing)) = Some existing)"
    using k by (simp add: process_incremental_data_extracted)
  have 1: "merge_new (Some existing) new_df =
       Inr (if kept = [] then existing else concat_frames existing (new_df\<lparr>rows := kept\<rparr>))"
    using merge_new_no_id_column[OF assms(1,2,3) id_cell_not_text[OF assms(4)]]
    by (simp add: Let_def kept_def)
  have 2: "merge_new (Some existing) new_df = Inr (concat_frames existing new_df)"
    if "list_all (id_above 0) (id_values new_df) \<and> rows new_df \<noteq> []"
  proof -
    have "kept = rows new_df"
      unfolding kept_def using that by (auto simp: id_values_def list_all_iff)
    with 1 that show ?thesis by simp
  qed
  show ?thesis using 1 2 3 unfolding Let_def kept_def[symmetric] by blast
qed

theorem merge_without_id_column_keeps_positive_ids_witness:
  "\<not> df_empty eg_no_id \<and> ''id'' \<notin> set (columns eg_no_id) \<and> ''id'' \<in> set (columns eg_new) \<and>
   list_all id_cell (id_values eg_new) \<and> safe_frame eg_no_id \<and> safe_frame eg_new \<and>
   list_all (id_above 0) (id_values eg_new) \<and> rows eg_new \<noteq> [] \<and>
   merge_new (Some eg_no_id) eg_new = Inr (concat_frames eg_no_id eg_new) \<and>
   concat_frames eg_no_id eg_new =
     \<lparr>columns = [''latency'', ''id''],
      rows = [[Num 10, NaN], [Num 20, Num 5], [Num 21, Num 6], [Num 22, Num 7]]\<rparr>"
proof -
  have h1: "\<not> df_empty eg_no_id" by (simp add: df_empty_def eg_defs)
  have h2: "''id'' \<notin> set (columns eg_no_id)" by (simp add: eg_defs)
  have h3: "''id'' \<in> set (columns eg_new)" by (simp add: eg_defs)
  have nids: "id_values eg_new = [Num 5, Num 6, Num 7]"
    by (simp add: id_values_def id_of_def cell_at_def eg_defs)
  have h4: "list_all id_cell (id_values eg_new)" by (simp add: nids)
  have h6: "safe_frame eg_no_id" by (simp add: safe_frame_def eg_defs)
  have h7: "safe_frame eg_new" by (simp add: safe_frame_def eg_defs)
  have h5: "list_all (id_above 0) (id_values eg_new) \<and> rows eg_new \<noteq> []"
    by (simp add: nids) (simp add: eg_defs)
  have m: "merge_new (Some eg_no_id) eg_new = Inr (concat_frames eg_no_id eg_new)"
    using merge_without_id_column_keeps_positive_ids[OF h1 h2 h3 h4 h6 h7] h5
    unfolding Let_def by blast
  have c: "concat_frames eg_no_id eg_new =
     \<lparr>columns = [''latency'', ''id''],
      rows = [[Num 10, NaN], [Num 20, Num 5], [Num 21, Num 6], [Num 22, Num 7]]\<rparr>"
    by (simp add: concat_frames_def reindex_def cell_at_def eg_defs)
  from h1 h2 h3 h4 h5 h6 h7 m c show ?thesis by blast
qed

text \<open>
  Claim C6. When the extraction step fails, because the temporary file cannot be written,
  the engine run raises (the timeout is \<open>Raised TimeoutExpired\<close>), it returns a non-zero
  status or no output, or its output does not parse, \<^verbatim>\<open>process_incremental_data\<close> returns
  the dataset it was given. The function is total: it returns in every case.
\<close>

theorem streaming_failure_keeps_dataset:
  assumes "mktemp ev text \<noteq> None \<or>
     (\<exists>e. run_perl ev (perl_script_path self) text = Raised e) \<or>
     (\<exists>returncode stdout stderr.
        run_perl ev (perl_script_path self) text = Completed returncode stdout stderr \<and>
        (returncode \<noteq> 0 \<or> stdout = [] \<or> (\<exists>e. read_csv ev stdout = Inl e)))"
  shows "fst (process_incremental_data ev self text existing_df) = existing_df"
  using assms
  by (auto simp: process_incremental_data_def split: option.splits proc.splits sum.splits)

text \<open>
  Non-zero status, timeout, empty output and unparseable output, each on the example dataset.
\<close>

theorem streaming_failure_keeps_dataset_witness:
  "fst (process_incremental_data (eg_failing_env (Completed 1 [] ''died''))
          (RealTimeMetricsProcessor_init ''scripts/script.pl'') ''log'' (Some eg_existing)) = Some eg_existing \<and>
   fst (process_incremental_data (eg_failing_env (Raised TimeoutExpired))
          (RealTimeMetricsProcessor_init ''scripts/script.pl'') ''log'' (Some eg_existing)) = Some eg_existing \<and>
   fst (process_incremental_data (eg_failing_env (Completed 0 [] []))
          (RealTimeMetricsProcessor_init ''scripts/script.pl'') ''log'' (Some eg_existing)) = Some eg_existing \<and>
   fst (process_incremental_data (eg_failing_env (Completed 0 ''id;latency'' []))
          (RealTimeMetricsProcessor_init ''scripts/script.pl'') ''log'' (Some eg_existing)) = Some eg_existing"
proof -
  let ?p = "RealTimeMetricsProcessor_init ''scripts/script.pl''"
  have a: "fst (process_incremental_data (eg_failing_env (Completed 1 [] ''died'')) ?p ''log'' (Some eg_existing)) = Some eg_existing"
    by (rule streaming_failure_keeps_dataset) (simp add: eg_failing_env_def)
  have b: "fst (process_incremental_data (eg_failing_env (Raised TimeoutExpired)) ?p ''log'' (Some eg_existing)) = Some eg_existing"
    by (rule streaming_failure_keeps_dataset) (simp add: eg_failing_env_def)
  have c: "fst (process_incremental_data (eg_failing_env (Completed 0 [] [])) ?p ''log'' (Some eg_existing)) = Some eg_existing"
    by (rule streaming_failure_keeps_dataset) (simp add: eg_failing_env_def)
  have d: "fst (process_incremental_data (eg_failing_env (Completed 0 ''id;latency'' [])) ?p ''log'' (Some eg_existing)) = Some eg_existing"
    by (rule streaming_failure_keeps_dataset) (simp add: eg_failing_env_def)
  from a b c d show ?thesis by blast
qed

lemma process_file_extracted:
  "extract_frame ev (batch_perl_script_path self) content = Some df0 \<Longrightarrow>
   process_file ev self content filename = (Some (setitem df0 ''source_file'' (Str filename)), [])"
  by (auto simp: extract_frame_def process_file_def
      split: option.splits proc.splits if_splits sum.splits)

lemma process_file_not_extracted:
  "extract_frame ev (batch_perl_script_path self) content = None \<Longrightarrow>
   fst (process_file ev self content filename) = None \<and>
   (\<exists>m. snd (process_file ev self content filename) = [m] \<and> failure_source m = Some filename)"
proof -
  have rf: "failure_source (run_failure filename e) = Some filename" for e
    by (cases e) simp_all
  assume "extract_frame ev (batch_perl_script_path self) content = None"
  then show ?thesis
    by (auto simp: extract_frame_def process_file_def rf
        split: option.splits proc.splits if_splits sum.splits)
qed

lemma setitem_cells:
  assumes "wf_frame df0"
  shows "c \<in> set (columns (setitem df0 c v)) \<and>
         (\<forall>r \<in> set (rows (setitem df0 c v)). cell_at (columns (setitem df0 c v)) r c = v) \<and>
         length (rows (setitem df0 c v)) = length (rows df0)"
proof (cases "c \<in> set (columns df0)")
  case True
  have "cell_at cols (map (\<lambda>(k, x). if k = c then v else x) (zip cols r)) c = v"
    if "c \<in> set cols" "length r = length cols" for cols r
    using that
  proof (induction cols arbitrary: r)
    case Nil then show ?case by simp
  next
    case (Cons k cols)
    then obtain x xs where "r = x # xs" by (cases r) auto
    with Cons show ?case by (auto simp: cell_at_def)
  qed
  with True assms show ?thesis
    by (auto simp: setitem_def wf_frame_def list_all_iff)
next
  case False
  have "cell_at (cols @ [c]) (r @ [v]) c = v"
    if "c \<notin> set cols" "length r = length cols" for cols r
    using that
    by (auto simp: cell_at_def map_add_def split: option.splits dest: map_of_SomeD set_zip_leftD)
  with False assms show ?thesis
    by (auto simp: setitem_def wf_frame_def list_all_iff)
qed

lemma process_uploads_others:
  "name \<notin> fst ` set files \<Longrightarrow>
   map_of (fst (process_uploads ev self files pd)) name = map_of pd name"
proof (induction files arbitrary: pd)
  case Nil then show ?case by simp
next
  case (Cons f files)
  obtain n c where f: "f = (n, c)" by (cases f)
  from Cons.prems f have ne: "n \<noteq> name" and rest: "name \<notin> fst ` set files" by auto
  show ?case
    using Cons.IH[OF rest] ne
    by (auto simp: f map_add_def split_beta split: option.splits if_splits)
qed

lemma process_uploads_one:
  "distinct (map fst files) \<Longrightarrow> (name, content) \<in> set files \<Longrightarrow> name \<notin> fst ` set pd \<Longrightarrow>
   map_of (fst (process_uploads ev self files pd)) name =
     (case fst (process_file ev self content name) of
        None \<Rightarrow> None | Some d \<Rightarrow> if df_empty d then None else Some d)"
proof (induction files arbitrary: pd)
  case Nil then show ?case by simp
next
  case (Cons f files)
  obtain n c where f: "f = (n, c)" by (cases f)
  have none: "map_of pd name = None"
    using Cons.prems(3) by (metis map_of_eq_None_iff)
  show ?case
  proof (cases "n = name")
    case True
    with Cons.prems f have c: "c = content" and rest: "name \<notin> fst ` set files"
      by (auto simp: image_iff)
    show ?thesis
      using True c Cons.prems(3) none
      by (auto simp: f process_uploads_others[OF rest] map_add_def split_beta
          split: option.splits if_splits)
  next
    case False
    with Cons.prems f have mem: "(name, content) \<in> set files" and d: "distinct (map fst files)"
      by auto
    have step: "map_of (fst (process_uploads ev self files pd')) name =
       (case fst (process_file ev self content name) of
          None \<Rightarrow> None | Some d \<Rightarrow> if df_empty d then None else Some d)"
      if "name \<notin> fst ` set pd'" for pd'
      using Cons.IH[OF d mem that] .
    have a: "name \<notin> fst ` set (pd @ [(n, x)])" for x
      using Cons.prems(3) False by auto
    show ?thesis
      using step[OF Cons.prems(3)] step[OF a]
      by (auto simp: f split_beta split: option.splits if_splits)
  qed
qed

text \<open>
  Claim C7. \<^verbatim>\<open>process_file\<close> returns a dataset exactly when extraction succeeds; the
  dataset is then the parsed frame with \<open>source_file\<close> set to the given name in every
  row, and nothing is reported. When extraction fails it returns no dataset and reports
  one failure that names the source: the timeout message after a timeout, the processing
  error with the engine's standard error after a non-zero status, the handler's message
  when the output does not parse. In the upload loop the dataset stored for a file
  depends on the processing of that file alone.
\<close>

theorem batch_ingestion_outcome:
  "((\<exists>df. fst (process_file ev self content filename) = Some df) \<longleftrightarrow>
      extract_frame ev (batch_perl_script_path self) content \<noteq> None) \<and>
   (\<forall>df0. extract_frame ev (batch_perl_script_path self) content = Some df0 \<longrightarrow>
      process_file ev self content filename =
        (Some (setitem df0 ''source_file'' (Str filename)), []) \<and>
      (wf_frame df0 \<longrightarrow>
         ''source_file'' \<in> set (columns (setitem df0 ''source_file'' (Str filename))) \<and>
         (\<forall>r \<in> set (rows (setitem df0 ''source_file'' (Str filename))).
            cell_at (columns (setitem df0 ''source_file'' (Str filename))) r ''source_file''
              = Str filename) \<and>
         length (rows (setitem df0 ''source_file'' (Str filename))) = length (rows df0))) \<and>
   (extract_frame ev (batch_perl_script_path self) content = None \<longrightarrow>
      fst (process_file ev self content filename) = None \<and>
      (\<exists>m. snd (process_file ev self content filename) = [m] \<and>
           failure_source m = Some filename)) \<and>
   (mktemp ev content = None \<and>
    run_perl ev (batch_perl_script_path self) content = Raised TimeoutExpired \<longrightarrow>
      process_file ev self content filename = (None, [ProcessingTimeout filename])) \<and>
   (\<forall>returncode stdout stderr.
      mktemp ev content = None \<and>
      run_perl ev (batch_perl_script_path self) content = Completed returncode stdout stderr \<and>
      returncode \<noteq> 0 \<longrightarrow>
      process_file ev self content filename = (None, [ErrorProcessing filename stderr])) \<and>
   (\<forall>stdout stderr e.
      mktemp ev content = None \<and>
      run_perl ev (batch_perl_script_path self) content = Completed 0 stdout stderr \<and>
      stdout \<noteq> [] \<and> read_csv ev stdout = Inl e \<longrightarrow>
      process_file ev self content filename = (None, [run_failure filename e])) \<and>
   (\<forall>files processed name text.
      distinct (map fst files) \<and> (name, text) \<in> set files \<and> name \<notin> fst ` set processed \<longrightarrow>
      map_of (fst (process_uploads ev self files processed)) name =
        (case fst (process_file ev self text name) of
           None \<Rightarrow> None | Some d \<Rightarrow> if df_empty d then None else Some d))"
proof -
  let ?x = "extract_frame ev (batch_perl_script_path self) content"
  have 1: "(\<exists>df. fst (process_file ev self content filename) = Some df) \<longleftrightarrow> ?x \<noteq> None"
  proof (cases ?x)
    case None
    then show ?thesis using process_file_not_extracted[OF None, of filename] by simp
  next
    case (Some df0)
    then show ?thesis using process_file_extracted[OF Some, of filename] by simp
  qed
  have 2: "\<forall>df0. ?x = Some df0 \<longrightarrow>
      process_file ev self content filename =
        (Some (setitem df0 ''source_file'' (Str filename)), []) \<and>
      (wf_frame df0 \<longrightarrow>
         ''source_file'' \<in> set (columns (setitem df0 ''source_file'' (Str filename))) \<and>
         (\<forall>r \<in> set (rows (setitem df0 ''source_file'' (Str filename))).
            cell_at (columns (setitem df0 ''source_file'' (Str filename))) r ''source_file''
              = Str filename) \<and>
         length (rows (setitem df0 ''source_file'' (Str filename))) = length (rows df0))"
    using process_file_extracted setitem_cells by blast
  have 3: "?x = None \<longrightarrow>
      fst (process_file ev self content filename) = None \<and>
      (\<exists>m. snd (process_file ev self content filename) = [m] \<and>
           failure_source m = Some filename)"
    using process_file_not_extracted by blast
  have 4: "mktemp ev content = None \<and>
    run_perl ev (batch_perl_script_path self) content = Raised TimeoutExpired \<longrightarrow>
      process_file ev self content filename = (None, [ProcessingTimeout filename])"
    by (simp add: process_file_def)
  have 5: "\<forall>returncode stdout stderr.
      mktemp ev content = None \<and>
      run_perl ev (batch_perl_script_path self) content = Completed returncode stdout stderr \<and>
      returncode \<noteq> 0 \<longrightarrow>
      process_file ev self content filename = (None, [ErrorProcessing filename stderr])"
    by (simp add: process_file_def)
  have 6: "\<forall>stdout stderr e.
      mktemp ev content = None \<and>
      run_perl ev (batch_perl_script_path self) content = Completed 0 stdout stderr \<and>
      stdout \<noteq> [] \<and> read_csv ev stdout = Inl e \<longrightarrow>
      process_file ev self content filename = (None, [run_failure filename e])"
    by (simp add: process_file_def)
  have 7: "\<forall>files processed name text.
      distinct (map fst files) \<and> (name, text) \<in> set files \<and> name \<notin> fst ` set processed \<longrightarrow>
      map_of (fst (process_uploads ev self files processed)) name =
        (case fst (process_file ev self text name) of
           None \<Rightarrow> None | Some d \<Rightarrow> if df_empty d then None else Some d)"
    using process_uploads_one by blast
  from 1 2 3 4 5 6 7 show ?thesis by (intro conjI)
qed

text \<open>
  A file on which the engine exceeds its timeout, and a sibling in the same batch that succeeds.
\<close>

theorem batch_ingestion_outcome_witness:
  "process_file eg_batch_env eg_batch_processor ''slow'' ''a.log'' = (None, [ProcessingTimeout ''a.log'']) \<and>
   failure_source (ProcessingTimeout ''a.log'') = Some ''a.log'' \<and>
   extract_frame eg_batch_env (batch_perl_script_path eg_batch_processor) ''good'' = Some eg_new \<and>
   wf_frame eg_new \<and>
   process_file eg_batch_env eg_batch_processor ''good'' ''b.log'' =
     (Some (setitem eg_new ''source_file'' (Str ''b.log'')), []) \<and>
   list_all (\<lambda>r. cell_at (columns (setitem eg_new ''source_file'' (Str ''b.log''))) r ''source_file''
                  = Str ''b.log'')
     (rows (setitem eg_new ''source_file'' (Str ''b.log''))) \<and>
   map_of (fst (process_uploads eg_batch_env eg_batch_processor
                  [(''a.log'', ''slow''), (''b.log'', ''good'')] [])) ''a.log'' = None \<and>
   map_of (fst (process_uploads eg_batch_env eg_batch_processor
                  [(''a.log'', ''slow''), (''b.log'', ''good'')] [])) ''b.log''
     = Some (setitem eg_new ''source_file'' (Str ''b.log''))"
proof -
  note slow = batch_ingestion_outcome[of eg_batch_env eg_batch_processor "''slow''" "''a.log''"]
  note good = batch_ingestion_outcome[of eg_batch_env eg_batch_processor "''good''" "''b.log''"]
  have env: "mktemp eg_batch_env ''slow'' = None \<and>
     run_perl eg_batch_env (batch_perl_script_path eg_batch_processor) ''slow'' = Raised TimeoutExpired"
    by (simp add: eg_batch_env_def)
  have a: "process_file eg_batch_env eg_batch_processor ''slow'' ''a.log'' = (None, [ProcessingTimeout ''a.log''])"
    using slow env by blast
  have x: "extract_frame eg_batch_env (batch_perl_script_path eg_batch_processor) ''good'' = Some eg_new"
    by (simp add: extract_frame_def eg_batch_env_def)
  have wf: "wf_frame eg_new" by (simp add: wf_frame_def eg_new_def)
  have b: "process_file eg_batch_env eg_batch_processor ''good'' ''b.log'' =
     (Some (setitem eg_new ''source_file'' (Str ''b.log'')), [])"
    using good x by blast
  have "\<forall>r \<in> set (rows (setitem eg_new ''source_file'' (Str ''b.log''))).
      cell_at (columns (setitem eg_new ''source_file'' (Str ''b.log''))) r ''source_file'' = Str ''b.log''"
    using good x wf by blast
  then have c: "list_all (\<lambda>r. cell_at (columns (setitem eg_new ''source_file'' (Str ''b.log''))) r
        ''source_file'' = Str ''b.log'') (rows (setitem eg_new ''source_file'' (Str ''b.log'')))"
    by (simp only: list_all_iff)
  have ne: "\<not> df_empty (setitem eg_new ''source_file'' (Str ''b.log''))"
    by (simp add: df_empty_def setitem_def eg_new_def)
  have files: "distinct (map fst [(''a.log'', ''slow''), (''b.log'', ''good'')])" by simp
  have la: "map_of (fst (process_uploads eg_batch_env eg_batch_processor
                  [(''a.log'', ''slow''), (''b.log'', ''good'')] [])) ''a.log'' = None"
  proof -
    have "map_of (fst (process_uploads eg_batch_env eg_batch_processor
                  [(''a.log'', ''slow''), (''b.log'', ''good'')] [])) ''a.log'' =
        (case fst (process_file eg_batch_env eg_batch_processor ''slow'' ''a.log'') of
           None \<Rightarrow> None | Some d \<Rightarrow> if df_empty d then None else Some d)"
      using slow files by (auto simp del: process_uploads.simps)
    then show ?thesis by (simp add: a)
  qed
  have lb: "map_of (fst (process_uploads eg_batch_env eg_batch_processor
                  [(''a.log'', ''slow''), (''b.log'', ''good'')] [])) ''b.log''
     = Some (setitem eg_new ''source_file'' (Str ''b.log''))"
  proof -
    have "map_of (fst (process_uploads eg_batch_env eg_batch_processor
                  [(''a.log'', ''slow''), (''b.log'', ''good'')] [])) ''b.log'' =
        (case fst (process_file eg_batch_env eg_batch_processor ''good'' ''b.log'') of
           None \<Rightarrow> None | Some d \<Rightarrow> if df_empty d then None else Some d)"
      using good files by (auto simp del: process_uploads.simps)
    then show ?thesis by (simp add: b ne)
  qed
  from a x wf b c la lb show ?thesis by simp
qed

section \<open>Properties of the cursor tracker and of the streaming tab\<close>

lemma read_new_data_position_le:
  "last_position self \<le> last_position (fst (snd (read_new_data fs self file_path)))"
  by (simp add: read_new_data_def Let_def split: file_state.splits)

lemma run_ops_monotone:
  "Reset \<notin> set ops \<Longrightarrow> last_position self \<le> last_position (run_ops self ops)"
proof (induction ops arbitrary: self)
  case Nil then show ?case by simp
next
  case (Cons op ops)
  show ?case
  proof (cases op)
    case (Read fs p)
    have "last_position self \<le> last_position (fst (snd (read_new_data fs self p)))"
      by (rule read_new_data_position_le)
    also have "\<dots> \<le> last_position (run_ops (fst (snd (read_new_data fs self p))) ops)"
      using Cons by simp
    finally show ?thesis using Read by simp
  next
    case Reset
    with Cons.prems show ?thesis by simp
  qed
qed

lemma strip_all_space: "list_all is_space s \<Longrightarrow> strip s = []"
proof -
  assume "list_all is_space s"
  then have "dropWhile is_space s = []"
    by (induction s) simp_all
  then show ?thesis by (simp only: strip_def rev.simps dropWhile.simps)
qed

text \<open>
  Claim C4. Over any run of reads without a reset the cursor never decreases. A read of
  a readable file leaves the cursor at the offset it reached, the larger of the old
  cursor and the file's length, which is the end of the file whenever the file is at
  least as long as the old cursor (an append-only file); a read that fails leaves the
  tracker as it was. A reset sets the cursor to 0, and the next read then returns the
  file from offset 0.
\<close>

theorem cursor_never_decreases_without_reset:
  "(Reset \<notin> set ops \<longrightarrow> last_position self \<le> last_position (run_ops self ops)) \<and>
   (\<forall>content. fs file_path = Readable content \<longrightarrow>
      last_position (fst (snd (read_new_data fs self file_path)))
        = max (last_position self) (length content) \<and>
      (last_position self \<le> length content \<longrightarrow>
         last_position (fst (snd (read_new_data fs self file_path))) = length content)) \<and>
   ((fs file_path = Missing \<or> (\<exists>e. fs file_path = Unreadable e)) \<longrightarrow>
      fst (snd (read_new_data fs self file_path)) = self) \<and>
   last_position (reset_position self) = 0 \<and>
   (\<forall>content. fs file_path = Readable content \<and> strip content \<noteq> [] \<longrightarrow>
      fst (read_new_data fs (reset_position self) file_path) = Some content)"
proof -
  have 1: "Reset \<notin> set ops \<longrightarrow> last_position self \<le> last_position (run_ops self ops)"
    using run_ops_monotone by blast
  have 2: "\<forall>content. fs file_path = Readable content \<longrightarrow>
      last_position (fst (snd (read_new_data fs self file_path)))
        = max (last_position self) (length content) \<and>
      (last_position self \<le> length content \<longrightarrow>
         last_position (fst (snd (read_new_data fs self file_path))) = length content)"
    by (auto simp: read_new_data_def Let_def)
  have 3: "(fs file_path = Missing \<or> (\<exists>e. fs file_path = Unreadable e)) \<longrightarrow>
      fst (snd (read_new_data fs self file_path)) = self"
    by (auto simp: read_new_data_def)
  have 4: "last_position (reset_position self) = 0"
    by (simp add: reset_position_def)
  have 5: "\<forall>content. fs file_path = Readable content \<and> strip content \<noteq> [] \<longrightarrow>
      fst (read_new_data fs (reset_position self) file_path) = Some content"
    by (simp add: read_new_data_def reset_position_def Let_def)
  from 1 2 3 4 5 show ?thesis by (intro conjI)
qed

text \<open>
  A file of 5 bytes growing to 13: the cursor goes 0, 5, 13; after a reset it is 0 and the
  next read returns the whole file.
\<close>

theorem cursor_never_decreases_without_reset_witness:
  "last_position eg_tracker = 0 \<and>
   last_position (run_ops eg_tracker [Read (eg_fs ''1 KPM'') ''rt.log'']) = 5 \<and>
   last_position (run_ops eg_tracker
      [Read (eg_fs ''1 KPM'') ''rt.log'', Read (eg_fs ''1 KPM ind_msg'') ''rt.log'']) = 13 \<and>
   last_position (reset_position (run_ops eg_tracker [Read (eg_fs ''1 KPM'') ''rt.log''])) = 0 \<and>
   fst (read_new_data (eg_fs ''1 KPM ind_msg'')
          (reset_position (run_ops eg_tracker [Read (eg_fs ''1 KPM'') ''rt.log''])) ''rt.log'')
     = Some ''1 KPM ind_msg''"
proof -
  let ?f1 = "eg_fs ''1 KPM''" and ?f2 = "eg_fs ''1 KPM ind_msg''"
  let ?t1 = "run_ops eg_tracker [Read ?f1 ''rt.log'']"
  have z: "last_position eg_tracker = 0"
    by (simp add: eg_tracker_def RealTimeMetricsProcessor_init_def)
  have r1: "?f1 ''rt.log'' = Readable ''1 KPM''" and r2: "?f2 ''rt.log'' = Readable ''1 KPM ind_msg''"
    by (simp_all add: eg_fs_def)
  have t1: "?t1 = fst (snd (read_new_data ?f1 eg_tracker ''rt.log''))" by simp
  have p1: "last_position ?t1 = 5"
    using cursor_never_decreases_without_reset[of "[]" eg_tracker ?f1 "''rt.log''"] r1 z
    unfolding t1 by simp
  have p2: "last_position (run_ops eg_tracker [Read ?f1 ''rt.log'', Read ?f2 ''rt.log'']) = 13"
  proof -
    have "run_ops eg_tracker [Read ?f1 ''rt.log'', Read ?f2 ''rt.log'']
        = fst (snd (read_new_data ?f2 ?t1 ''rt.log''))" by simp
    then show ?thesis
      using cursor_never_decreases_without_reset[of "[]" ?t1 ?f2 "''rt.log''"] r2 p1
      by simp
  qed
  have s: "strip ''1 KPM ind_msg'' \<noteq> []"
    by (simp add: strip_def is_space_def)
  have p3: "last_position (reset_position ?t1) = 0"
    using cursor_never_decreases_without_reset[of "[]" ?t1 ?f2 "''rt.log''"] by blast
  have p4: "fst (read_new_data ?f2 (reset_position ?t1) ''rt.log'') = Some ''1 KPM ind_msg''"
    using cursor_never_decreases_without_reset[of "[]" ?t1 ?f2 "''rt.log''"] r2 s by blast
  from z p1 p2 p3 p4 show ?thesis by blast
qed

text \<open>
  Claim C5. A missing file gives no new data and leaves the tracker untouched; an empty
  file, or one that holds only white space after the cursor, gives no new data and no
  error message; a file that cannot be read gives no new data, the tracker untouched and
  an error message. The function is total: it returns in every case.
\<close>

theorem read_without_new_data_returns_none:
  "(fs file_path = Missing \<longrightarrow> read_new_data fs self file_path = (None, self, [])) \<and>
   (fs file_path = Readable [] \<longrightarrow> fst (read_new_data fs self file_path) = None) \<and>
   (\<forall>content. fs file_path = Readable content \<and>
        list_all is_space (drop (last_position self) content) \<longrightarrow>
      fst (read_new_data fs self file_path) = None \<and>
      snd (snd (read_new_data fs self file_path)) = []) \<and>
   (\<forall>e. fs file_path = Unreadable e \<longrightarrow>
      read_new_data fs self file_path = (None, self, [ErrorReadingFile file_path e]))"
proof -
  have "strip [] = []" by (simp add: strip_def)
  then show ?thesis
    by (simp add: read_new_data_def Let_def strip_all_space)
qed

text \<open>
  A missing path, an empty file, and a file with only a newline and a blank after the cursor.
\<close>

theorem read_without_new_data_returns_none_witness:
  "read_new_data (eg_fs ''1 KPM'') eg_tracker ''missing.log'' = (None, eg_tracker, []) \<and>
   fst (read_new_data (eg_fs []) eg_tracker ''rt.log'') = None \<and>
   list_all is_space (drop (last_position (eg_tracker\<lparr>last_position := 5\<rparr>)) (''1 KPM'' @ [CHR 0x0A, CHR '' ''])) \<and>
   fst (read_new_data (eg_fs (''1 KPM'' @ [CHR 0x0A, CHR '' ''])) (eg_tracker\<lparr>last_position := 5\<rparr>) ''rt.log'') = None"
proof -
  have a: "read_new_data (eg_fs ''1 KPM'') eg_tracker ''missing.log'' = (None, eg_tracker, [])"
    using read_without_new_data_returns_none[of "eg_fs ''1 KPM''" "''missing.log''" eg_tracker]
    by (simp add: eg_fs_def)
  have b: "fst (read_new_data (eg_fs []) eg_tracker ''rt.log'') = None"
    using read_without_new_data_returns_none[of "eg_fs []" "''rt.log''" eg_tracker]
    by (simp add: eg_fs_def)
  have sp: "list_all is_space (drop (last_position (eg_tracker\<lparr>last_position := 5\<rparr>)) (''1 KPM'' @ [CHR 0x0A, CHR '' '']))"
    by (simp add: is_space_def)
  have r: "eg_fs (''1 KPM'' @ [CHR 0x0A, CHR '' '']) ''rt.log'' = Readable (''1 KPM'' @ [CHR 0x0A, CHR '' ''])"
    by (simp add: eg_fs_def)
  have c: "fst (read_new_data (eg_fs (''1 KPM'' @ [CHR 0x0A, CHR '' ''])) (eg_tracker\<lparr>last_position := 5\<rparr>) ''rt.log'') = None"
    using read_without_new_data_returns_none[of "eg_fs (''1 KPM'' @ [CHR 0x0A, CHR '' ''])" "''rt.log''" "eg_tracker\<lparr>last_position := 5\<rparr>"] r sp
    by blast
  from a b sp c show ?thesis by blast
qed

lemma process_incremental_data_cursor:
  "process_incremental_data ev (self\<lparr>last_position := n\<rparr>) text d =
   process_incremental_data ev self text d"
  by (simp add: process_incremental_data_def cong: option.case_cong proc.case_cong)

lemma strip_nonempty: "strip s \<noteq> [] \<Longrightarrow> s \<noteq> []"
  by (auto simp: strip_def)

lemma real_time_tab_monitored:
  assumes "monitoring_enabled inp" "log_file_path inp \<noteq> []"
    and "fs (log_file_path inp) = Readable content" "strip content \<noteq> []"
  shows "rt_data (fst (real_time_tab ev fs inp ss)) =
     (let d0 = (if reset_clicked inp then DataFrame
                else (case rt_data ss of None \<Rightarrow> DataFrame | Some d \<Rightarrow> d))
      in Some (case fst (process_incremental_data ev
                          (RealTimeMetricsProcessor_init ''scripts/script.pl'') content (Some d0)) of
                 Some d \<Rightarrow> d | None \<Rightarrow> d0))"
proof -
  define P where "P = RealTimeMetricsProcessor_init ''scripts/script.pl''"
  have ne: "content \<noteq> []" using assms(4) by (rule strip_nonempty)
  have z: "last_position P = 0" "reset_position P = P"
    by (simp_all add: P_def RealTimeMetricsProcessor_init_def reset_position_def)
  have rd: "read_new_data fs P (log_file_path inp) =
      (Some content, P\<lparr>last_position := length content\<rparr>, [])"
    using assms(3,4) z(1) by (simp add: read_new_data_def Let_def)
  show ?thesis
    unfolding real_time_tab_def P_def[symmetric] Let_def
    using assms(1,2) ne
    by (simp add: z rd process_incremental_data_cursor split_beta split: option.splits)
qed

lemma poll_is_stream:
  "list_all monitored its \<Longrightarrow> rt_data ss = Some d0 \<Longrightarrow>
   rt_data (poll ev its ss) =
     Some (stream ev (RealTimeMetricsProcessor_init ''scripts/script.pl'') (map file_text its) d0)"
proof (induction its arbitrary: ss d0)
  case Nil then show ?case by simp
next
  case (Cons it its)
  obtain fs inp where it: "it = (fs, inp)" by (cases it)
  from Cons.prems(1) it obtain content where
    m: "monitoring_enabled inp" "\<not> reset_clicked inp" "log_file_path inp \<noteq> []"
      "fs (log_file_path inp) = Readable content" "strip content \<noteq> []"
    by (auto simp: monitored_def split: file_state.splits)
  let ?d1 = "case fst (process_incremental_data ev
                 (RealTimeMetricsProcessor_init ''scripts/script.pl'') content (Some d0)) of
               Some d \<Rightarrow> d | None \<Rightarrow> d0"
  have step: "rt_data (fst (real_time_tab ev fs inp ss)) = Some ?d1"
    using real_time_tab_monitored[where inp = inp and fs = fs and content = content
        and ev = ev and ss = ss] m Cons.prems(2)
    by (simp add: Let_def)
  have ft: "file_text it = content" using m(4) it by (simp add: file_text_def)
  have rest: "list_all monitored its" using Cons.prems(1) by simp
  show ?case
    using Cons.IH[OF rest step] by (simp add: it ft[unfolded it])
qed

text \<open>
  Claim C10. The processor a tab invocation builds has cursor 0, so its read returns the
  whole content of the monitored file (when that is more than white space), and the
  tab hands exactly that content to \<^verbatim>\<open>process_incremental_data\<close> together with the
  dataset of the session, whatever the invocations before did. Successive monitored
  invocations therefore stream the whole file contents, one after the other, into the
  dataset: only the merge decides which records are new.
\<close>

theorem streaming_tab_rereads_whole_file:
  "last_position (RealTimeMetricsProcessor_init script) = 0 \<and>
   (\<forall>content. fs (log_file_path inp) = Readable content \<longrightarrow>
      fst (read_new_data fs (RealTimeMetricsProcessor_init script) (log_file_path inp)) =
        (if strip content \<noteq> [] then Some content else None)) \<and>
   (\<forall>content.
      monitoring_enabled inp \<and> log_file_path inp \<noteq> [] \<and>
      fs (log_file_path inp) = Readable content \<and> strip content \<noteq> [] \<longrightarrow>
      rt_data (fst (real_time_tab ev fs inp ss)) =
        (let d0 = (if reset_clicked inp then DataFrame
                   else (case rt_data ss of None \<Rightarrow> DataFrame | Some d \<Rightarrow> d))
         in Some (case fst (process_incremental_data ev
                             (RealTimeMetricsProcessor_init ''scripts/script.pl'') content (Some d0)) of
                    Some d \<Rightarrow> d | None \<Rightarrow> d0))) \<and>
   (\<forall>its d0. list_all monitored its \<and> rt_data ss = Some d0 \<longrightarrow>
      rt_data (poll ev its ss) =
        Some (stream ev (RealTimeMetricsProcessor_init ''scripts/script.pl'') (map file_text its) d0))"
proof -
  have 1: "last_position (RealTimeMetricsProcessor_init script) = 0"
    by (simp add: RealTimeMetricsProcessor_init_def)
  have 2: "\<forall>content. fs (log_file_path inp) = Readable content \<longrightarrow>
      fst (read_new_data fs (RealTimeMetricsProcessor_init script) (log_file_path inp)) =
        (if strip content \<noteq> [] then Some content else None)"
    by (simp add: read_new_data_def RealTimeMetricsProcessor_init_def Let_def)
  have 3: "\<forall>content.
      monitoring_enabled inp \<and> log_file_path inp \<noteq> [] \<and>
      fs (log_file_path inp) = Readable content \<and> strip content \<noteq> [] \<longrightarrow>
      rt_data (fst (real_time_tab ev fs inp ss)) =
        (let d0 = (if reset_clicked inp then DataFrame
                   else (case rt_data ss of None \<Rightarrow> DataFrame | Some d \<Rightarrow> d))
         in Some (case fst (process_incremental_data ev
                             (RealTimeMetricsProcessor_init ''scripts/script.pl'') content (Some d0)) of
                    Some d \<Rightarrow> d | None \<Rightarrow> d0))"
    using real_time_tab_monitored by blast
  have 4: "\<forall>its d0. list_all monitored its \<and> rt_data ss = Some d0 \<longrightarrow>
      rt_data (poll ev its ss) =
        Some (stream ev (RealTimeMetricsProcessor_init ''scripts/script.pl'') (map file_text its) d0)"
    using poll_is_stream by blast
  from 1 2 3 4 show ?thesis by (intro conjI)
qed

text \<open>
  Two invocations on a growing file: the second one processes the whole file again.
\<close>

theorem streaming_tab_rereads_whole_file_witness:
  "last_position (RealTimeMetricsProcessor_init ''scripts/script.pl'') = 0 \<and>
   fst (read_new_data (eg_fs ''1 KPM'') (RealTimeMetricsProcessor_init ''scripts/script.pl'')
          (log_file_path eg_inputs)) = Some ''1 KPM'' \<and>
   list_all monitored [(eg_fs ''1 KPM'', eg_inputs), (eg_fs ''1 KPM ind_msg'', eg_inputs)] \<and>
   map file_text [(eg_fs ''1 KPM'', eg_inputs), (eg_fs ''1 KPM ind_msg'', eg_inputs)]
     = [''1 KPM'', ''1 KPM ind_msg''] \<and>
   rt_data (poll (eg_env eg_new)
              [(eg_fs ''1 KPM'', eg_inputs), (eg_fs ''1 KPM ind_msg'', eg_inputs)]
              \<lparr>rt_data = Some DataFrame, rt_last_update = None\<rparr>)
     = Some (stream (eg_env eg_new) (RealTimeMetricsProcessor_init ''scripts/script.pl'')
               [''1 KPM'', ''1 KPM ind_msg''] DataFrame)"
proof -
  let ?its = "[(eg_fs ''1 KPM'', eg_inputs), (eg_fs ''1 KPM ind_msg'', eg_inputs)]"
  let ?ss = "\<lparr>rt_data = Some DataFrame, rt_last_update = None\<rparr>"
  note t = streaming_tab_rereads_whole_file[of "''scripts/script.pl''" "eg_fs ''1 KPM''"
      eg_inputs "eg_env eg_new" ?ss]
  have s1: "strip ''1 KPM'' \<noteq> []" and s2: "strip ''1 KPM ind_msg'' \<noteq> []"
    by (simp_all add: strip_def is_space_def)
  have r: "eg_fs ''1 KPM'' (log_file_path eg_inputs) = Readable ''1 KPM''"
    by (simp add: eg_fs_def eg_inputs_def)
  have a: "last_position (RealTimeMetricsProcessor_init ''scripts/script.pl'') = 0"
    using t by blast
  have b: "fst (read_new_data (eg_fs ''1 KPM'') (RealTimeMetricsProcessor_init ''scripts/script.pl'')
          (log_file_path eg_inputs)) = Some ''1 KPM''"
    using t r s1 by simp
  have m: "list_all monitored ?its"
    using s1 s2 by (simp add: monitored_def eg_fs_def eg_inputs_def)
  have f: "map file_text ?its = [''1 KPM'', ''1 KPM ind_msg'']"
    by (simp add: file_text_def eg_fs_def eg_inputs_def)
  have "rt_data (poll (eg_env eg_new) ?its ?ss)
     = Some (stream (eg_env eg_new) (RealTimeMetricsProcessor_init ''scripts/script.pl'')
               (map file_text ?its) DataFrame)"
    using t m by (simp del: poll.simps stream.simps list.map)
  with a b m f show ?thesis by (simp del: poll.simps stream.simps)
qed

section \<open>Reachable datasets\<close>

lemma nums_append: "nums (xs @ ys) = nums xs @ nums ys"
  by (induction xs rule: nums.induct) simp_all


lemma is_num_nums: "list_all is_num cs \<Longrightarrow> map Num (nums cs) = cs"
  by (induction cs rule: nums.induct) simp_all

lemma is_num_not_text: "list_all is_num cs \<Longrightarrow> list_all (\<lambda>c. \<not> is_text c) cs"
  by (induction cs rule: nums.induct) simp_all

lemma is_num_filter: "list_all is_num cs \<Longrightarrow> list_all is_num (filter P cs)"
  by (induction cs) simp_all

lemma filter_above_all:
  "list_all is_num cs \<Longrightarrow> \<forall>v \<in> set (nums cs). m < v \<Longrightarrow> filter (id_above m) cs = cs"
  by (induction cs rule: nums.induct) simp_all

lemma id_values_no_column:
  "''id'' \<notin> set (columns df) \<Longrightarrow> id_values df = map (\<lambda>r. NaN) (rows df)"
  by (simp add: id_values_def id_of_def cell_at_absent)

lemma increasing_has_id_column:
  assumes "list_all is_num (id_values df)" "rows df \<noteq> []"
  shows "''id'' \<in> set (columns df)"
proof (rule ccontr)
  assume "''id'' \<notin> set (columns df)"
  then have "id_values df = map (\<lambda>r. NaN) (rows df)" by (rule id_values_no_column)
  with assms show False by (cases "rows df") simp_all
qed

lemma increasing_empty_ids:
  assumes "list_all is_num (id_values df)" "df_empty df"
  shows "id_values df = []"
proof (cases "rows df = []")
  case True then show ?thesis by (simp add: id_values_def)
next
  case False
  with assms(2) have "columns df = []" by (simp add: df_empty_def)
  then have "''id'' \<notin> set (columns df)" by simp
  moreover have "''id'' \<in> set (columns df)" using assms(1) False by (rule increasing_has_id_column)
  ultimately show ?thesis by simp
qed

text \<open>The id cells after one merge.\<close>

text \<open>
  The id cells after one merge of a batch into a dataset, both with numeric ids: the new
  batch itself for an empty dataset, otherwise the old ids followed by the new ids above
  the old maximum. A batch with no id column and no row raises in the merge, and the
  dataset stays.
\<close>

lemma merge_step_ids:
  assumes d: "list_all is_num (id_values d)" and n: "list_all is_num (id_values n)"
  shows "id_values (case merge_new (Some d) n of Inr d' \<Rightarrow> d' | Inl e \<Rightarrow> d) =
     (if df_empty d then id_values n
      else id_values d @ filter (id_above (Max (set (nums (id_values d))))) (id_values n))"
proof (cases "df_empty d")
  case True
  then show ?thesis by (simp add: merge_new_def)
next
  case False
  then have rows: "rows d \<noteq> []" by (simp add: df_empty_def)
  have idc: "''id'' \<in> set (columns d)" using d rows by (rule increasing_has_id_column)
  have "id_values d \<noteq> []" using rows by (simp add: id_values_def)
  then have nn: "nums (id_values d) \<noteq> []"
    using is_num_nums[OF d] by (metis list.map_disc_iff)
  let ?m = "Max (set (nums (id_values d)))"
  show ?thesis
  proof (cases "''id'' \<in> set (columns n)")
    case True
    let ?kept = "filter (\<lambda>r. id_above ?m (id_of n r)) (rows n)"
    have m: "merge_new (Some d) n =
        Inr (if ?kept = [] then d else concat_frames d (n\<lparr>rows := ?kept\<rparr>))"
      using merge_new_numeric[OF False idc is_num_not_text[OF d] nn True is_num_not_text[OF n]]
      by (simp add: Let_def)
    have k: "id_values (n\<lparr>rows := ?kept\<rparr>) = filter (id_above ?m) (id_values n)"
      by (rule id_values_filter)
    show ?thesis
    proof (cases "?kept = []")
      case True
      then have "filter (id_above ?m) (id_values n) = []"
        using k by (simp add: id_values_def)
      with m True False show ?thesis by simp
    next
      case False
      with m k idc \<open>\<not> df_empty d\<close> show ?thesis by (simp add: id_values_concat)
    qed
  next
    case False
    then have "id_values n = map (\<lambda>r. NaN) (rows n)" by (rule id_values_no_column)
    with n have "rows n = []" by (cases "rows n") simp_all
    then have e: "id_values n = []" by (simp add: id_values_def)
    have gd: "getitem d ''id'' = Inr (id_values d)" using idc by (rule getitem_id)
    have sm: "series_max (id_values d) = Inr (Num ?m)"
      using series_max_numeric[OF is_num_not_text[OF d]] nn by simp
    have gn: "getitem n ''id'' = Inl (KeyError ''id'')" using False by (simp add: getitem_def)
    have "merge_new (Some d) n = Inl (KeyError ''id'')"
      using \<open>\<not> df_empty d\<close> idc by (simp add: merge_new_def gd sm gn)
    with e \<open>\<not> df_empty d\<close> show ?thesis by simp
  qed
qed






lemma stream_is_merge_all:
  "map (extract_frame ev (perl_script_path self)) chunks = map Some frames \<Longrightarrow>
   stream ev self chunks d = merge_all d frames"
proof (induction chunks arbitrary: frames d)
  case Nil then show ?case by simp
next
  case (Cons c chunks)
  then obtain n ns where f: "frames = n # ns"
    and x: "extract_frame ev (perl_script_path self) c = Some n"
    and rest: "map (extract_frame ev (perl_script_path self)) chunks = map Some ns"
    by (cases frames) auto
  have "fst (process_incremental_data ev self c (Some d)) =
      (case merge_new (Some d) n of Inr d' \<Rightarrow> Some d' | Inl e \<Rightarrow> Some d)"
    using process_incremental_data_extracted[OF x] .
  then have "(case fst (process_incremental_data ev self c (Some d)) of Some d' \<Rightarrow> d' | None \<Rightarrow> d)
      = (case merge_new (Some d) n of Inr d' \<Rightarrow> d' | Inl e \<Rightarrow> d)"
    by (simp split: sum.splits)
  then show ?case using Cons.IH[OF rest] by (simp add: f)
qed

lemma merge_all_ids:
  "list_all is_num (id_values d) \<Longrightarrow> list_all is_num (concat (map id_values ns)) \<Longrightarrow>
   sorted_wrt (<) (nums (id_values d @ concat (map id_values ns))) \<Longrightarrow>
   id_values (merge_all d ns) = id_values d @ concat (map id_values ns)"
proof (induction ns arbitrary: d)
  case Nil then show ?case by simp
next
  case (Cons n ns)
  let ?d1 = "case merge_new (Some d) n of Inr d' \<Rightarrow> d' | Inl e \<Rightarrow> d"
  from Cons.prems(2) have n: "list_all is_num (id_values n)"
    and ns: "list_all is_num (concat (map id_values ns))" by simp_all
  from Cons.prems(3) have above: "\<forall>x \<in> set (nums (id_values d)). \<forall>y \<in> set (nums (id_values n)). x < y"
    by (auto simp: nums_append sorted_wrt_append)
  have ids1: "id_values ?d1 = id_values d @ id_values n"
  proof (cases "df_empty d")
    case True
    then have "id_values d = []" using Cons.prems(1) by (simp add: increasing_empty_ids)
    with True merge_step_ids[OF Cons.prems(1) n] show ?thesis by simp
  next
    case False
    then have "id_values d \<noteq> []" by (simp add: df_empty_def id_values_def)
    then have nn: "nums (id_values d) \<noteq> []"
      using is_num_nums[OF Cons.prems(1)] by (metis list.map_disc_iff)
    then have "Max (set (nums (id_values d))) \<in> set (nums (id_values d))"
      using Max_in[of "set (nums (id_values d))"] by simp
    with above have "\<forall>y \<in> set (nums (id_values n)). Max (set (nums (id_values d))) < y"
      by blast
    then have "filter (id_above (Max (set (nums (id_values d))))) (id_values n) = id_values n"
      using n by (simp add: filter_above_all)
    with False merge_step_ids[OF Cons.prems(1) n] show ?thesis by simp
  qed
  have a: "list_all is_num (id_values ?d1)"
    unfolding ids1 using Cons.prems(1) n by simp
  have b: "sorted_wrt (<) (nums (id_values ?d1 @ concat (map id_values ns)))"
    unfolding ids1 using Cons.prems(3) by simp
  show ?case
    using Cons.IH[OF a ns b] by (simp add: ids1)
qed

lemma cell_at_setitem_present:
  "length r = length cols \<Longrightarrow> c' \<noteq> c \<Longrightarrow>
   cell_at cols (map (\<lambda>(k, x). if k = c then v else x) (zip cols r)) c' = cell_at cols r c'"
proof (induction cols arbitrary: r)
  case Nil then show ?case by (simp add: cell_at_def)
next
  case (Cons k cols)
  then obtain x xs where r: "r = x # xs" by (cases r) auto
  with Cons have "cell_at cols (map (\<lambda>(k, x). if k = c then v else x) (zip cols xs)) c' = cell_at cols xs c'"
    by simp
  with Cons.prems r show ?case by (auto simp: cell_at_def)
qed

lemma cell_at_setitem_absent:
  "length r = length cols \<Longrightarrow> c' \<noteq> c \<Longrightarrow> cell_at (cols @ [c]) (r @ [v]) c' = cell_at cols r c'"
  by (auto simp: cell_at_def map_add_def split: option.splits dest: map_of_SomeD set_zip_leftD)

lemma id_values_setitem:
  assumes "wf_frame df" "c \<noteq> ''id''"
  shows "id_values (setitem df c v) = id_values df"
proof -
  have len: "\<forall>r \<in> set (rows df). length r = length (columns df)"
    using assms(1) by (simp add: wf_frame_def list_all_iff)
  show ?thesis
  proof (cases "c \<in> set (columns df)")
    case True
    then show ?thesis
      using len assms(2)
      by (simp add: setitem_def id_values_def id_of_def cell_at_setitem_present)
  next
    case False
    then show ?thesis
      using len assms(2)
      by (simp add: setitem_def id_values_def id_of_def cell_at_setitem_absent)
  qed
qed





lemma eg_script: "perl_script_path eg_streaming_processor = ''scripts/script.pl''"
  "batch_perl_script_path eg_batch_processor = ''scripts/script.pl''"
  by (simp_all add: eg_streaming_processor_def RealTimeMetricsProcessor_init_def eg_batch_processor_def)

lemma spec_extract_block1:
  "extract_frame spec_env ''scripts/script.pl'' (kpm_line ''1'' ''7'') = Some (spec_frame [[1, 7]])"
  by code_simp

lemma spec_extract_block2:
  "extract_frame spec_env ''scripts/script.pl'' (kpm_line ''2'' ''9'') = Some (spec_frame [[2, 9]])"
  by code_simp

lemma spec_extract_blocks:
  "extract_frame spec_env ''scripts/script.pl'' (concat eg_block_chunks)
     = Some (spec_frame [[1, 7], [2, 9]])"
  by code_simp

lemma spec_extract_split1:
  "extract_frame spec_env ''scripts/script.pl'' (take 17 (kpm_line ''1'' ''7'')) = Some (spec_frame [])"
  by code_simp

lemma spec_extract_split2:
  "extract_frame spec_env ''scripts/script.pl'' (drop 17 (kpm_line ''1'' ''7'')) = Some (spec_frame [])"
  by code_simp

lemma spec_frame_ids: "id_values (spec_frame rs) = map (\<lambda>r. cell_at csv_columns (map Num r @ replicate 7 NaN) ''id'') rs"
  by (simp add: id_values_def id_of_def spec_frame_def comp_def)

text \<open>
  Claim C1 as stated fails on the engine modelled from the specification: a log of one
  block, cut inside its anchor line, gives two chunks in which the engine finds no
  block, so the streamed dataset has no record, while batch ingestion of the whole log
  gives the record with id 1.
\<close>

theorem streaming_loses_record_split_across_chunks:
  "concat eg_split_chunks = kpm_line ''1'' ''7'' \<and>
   id_values (stream spec_env eg_streaming_processor eg_split_chunks DataFrame) = [] \<and>
   map_option id_values
     (fst (process_file spec_env eg_batch_processor (concat eg_split_chunks) ''rt.log''))
     = Some [Num 1]"
proof -
  have c: "concat eg_split_chunks = kpm_line ''1'' ''7''"
    by (simp add: eg_split_chunks_def)
  have x: "map (extract_frame spec_env (perl_script_path eg_streaming_processor)) eg_split_chunks
      = map Some [spec_frame [], spec_frame []]"
    by (simp add: eg_split_chunks_def eg_script spec_extract_split1 spec_extract_split2)
  have e: "df_empty (spec_frame [])" "df_empty DataFrame"
    by (simp_all add: df_empty_def spec_frame_def DataFrame_def)
  have "stream spec_env eg_streaming_processor eg_split_chunks DataFrame
      = merge_all DataFrame [spec_frame [], spec_frame []]"
    using x by (rule stream_is_merge_all)
  also have "\<dots> = spec_frame []"
    using e by (simp add: merge_new_def)
  finally have s: "id_values (stream spec_env eg_streaming_processor eg_split_chunks DataFrame) = []"
    by (simp add: id_values_def spec_frame_def)
  have wf: "wf_frame (spec_frame [[1, 7]])"
    by (simp add: wf_frame_def spec_frame_def csv_columns_def metric_fields_def)
  have "fst (process_file spec_env eg_batch_processor (kpm_line ''1'' ''7'') ''rt.log'')
      = Some (setitem (spec_frame [[1, 7]]) ''source_file'' (Str ''rt.log''))"
    using process_file_extracted[of spec_env eg_batch_processor "kpm_line ''1'' ''7''"
        "spec_frame [[1, 7]]" "''rt.log''"]
    by (simp add: eg_script spec_extract_block1)
  moreover have "id_values (setitem (spec_frame [[1, 7]]) ''source_file'' (Str ''rt.log'')) = [Num 1]"
    using wf by (simp add: id_values_setitem spec_frame_ids cell_at_def csv_columns_def)
  ultimately have b: "map_option id_values
     (fst (process_file spec_env eg_batch_processor (concat eg_split_chunks) ''rt.log''))
     = Some [Num 1]"
    by (simp add: c)
  from c s b show ?thesis by blast
qed

text \<open>
  Claim C1, amended. For any engine and reader: when every chunk is extracted
  successfully, the ids extracted from the chunks, taken in sequence, are integers of
  magnitude at most \<open>2 ^ 53\<close> (which int64 and float64 hold alike) that increase
  strictly, the whole log is extracted successfully to a rectangular frame, and
  the ids extracted from the whole log are the ids extracted from the chunks, then
  streaming the chunks from the empty dataset gives exactly the chunks' ids in order,
  batch ingestion of the whole log succeeds, and both datasets have the same set of ids.
\<close>

theorem streaming_ids_equal_batch_ids:
  assumes "map (extract_frame ev script) chunks = map Some frames"
    and "extract_frame ev script (concat chunks) = Some full"
    and "wf_frame full"
    and "list_all exact_int (concat (map id_values frames))"
    and "sorted_wrt (<) (nums (concat (map id_values frames)))"
    and "set (id_values full) = set (concat (map id_values frames))"
    and "perl_script_path self = script"
    and "batch_perl_script_path batch = script"
  shows "id_values (stream ev self chunks DataFrame) = concat (map id_values frames) \<and>
         (\<exists>df. fst (process_file ev batch (concat chunks) source_name) = Some df \<and>
               set (id_values (stream ev self chunks DataFrame)) = set (id_values df))"
proof -
  have s: "stream ev self chunks DataFrame = merge_all DataFrame frames"
    using assms(1) unfolding assms(7)[symmetric] by (rule stream_is_merge_all)
  have e: "id_values DataFrame = []" by (simp add: id_values_def DataFrame_def)
  have ids: "id_values (merge_all DataFrame frames) = id_values DataFrame @ concat (map id_values frames)"
    using exact_int_is_num[OF assms(4)] assms(5) by (intro merge_all_ids) (simp_all add: e)
  have 1: "id_values (stream ev self chunks DataFrame) = concat (map id_values frames)"
    using s ids e by simp
  have p: "fst (process_file ev batch (concat chunks) source_name)
      = Some (setitem full ''source_file'' (Str source_name))"
    using process_file_extracted[of ev batch "concat chunks" full source_name] assms(2,8)
    by simp
  have "id_values (setitem full ''source_file'' (Str source_name)) = id_values full"
    using assms(3) by (simp add: id_values_setitem)
  with 1 p assms(6) show ?thesis by simp
qed

text \<open>
  A log of two blocks cut between the blocks, on the engine modelled from the specification.
\<close>

theorem streaming_ids_equal_batch_ids_witness:
  "map (extract_frame spec_env ''scripts/script.pl'') eg_block_chunks
     = map Some [spec_frame [[1, 7]], spec_frame [[2, 9]]] \<and>
   extract_frame spec_env ''scripts/script.pl'' (concat eg_block_chunks)
     = Some (spec_frame [[1, 7], [2, 9]]) \<and>
   wf_frame (spec_frame [[1, 7], [2, 9]]) \<and>
   concat (map id_values [spec_frame [[1, 7]], spec_frame [[2, 9]]]) = [Num 1, Num 2] \<and>
   id_values (spec_frame [[1, 7], [2, 9]]) = [Num 1, Num 2] \<and>
   id_values (stream spec_env eg_streaming_processor eg_block_chunks DataFrame) = [Num 1, Num 2] \<and>
   map_option (\<lambda>df. set (id_values df))
     (fst (process_file spec_env eg_batch_processor (concat eg_block_chunks) ''rt.log''))
     = Some (set (id_values (stream spec_env eg_streaming_processor eg_block_chunks DataFrame)))"
proof -
  let ?frames = "[spec_frame [[1, 7]], spec_frame [[2, 9]]]"
  let ?full = "spec_frame [[1, 7], [2, 9]]"
  have h1: "map (extract_frame spec_env ''scripts/script.pl'') eg_block_chunks = map Some ?frames"
    by (simp add: eg_block_chunks_def spec_extract_block1 spec_extract_block2)
  have h2: "extract_frame spec_env ''scripts/script.pl'' (concat eg_block_chunks) = Some ?full"
    by (rule spec_extract_blocks)
  have h3: "wf_frame ?full"
    by (simp add: wf_frame_def spec_frame_def csv_columns_def metric_fields_def)
  have i1: "concat (map id_values ?frames) = [Num 1, Num 2]"
    by (simp add: spec_frame_ids cell_at_def csv_columns_def)
  have i2: "id_values ?full = [Num 1, Num 2]"
    by (simp add: spec_frame_ids cell_at_def csv_columns_def)
  have h4: "list_all exact_int (concat (map id_values ?frames))" unfolding i1 by simp
  have h5: "sorted_wrt (<) (nums (concat (map id_values ?frames)))" unfolding i1 by simp
  have h6: "set (id_values ?full) = set (concat (map id_values ?frames))" unfolding i1 i2 by simp
  note t = streaming_ids_equal_batch_ids[OF h1 h2 h3 h4 h5 h6 eg_script, of "''rt.log''"]
  from t have a: "id_values (stream spec_env eg_streaming_processor eg_block_chunks DataFrame) = [Num 1, Num 2]"
    unfolding i1 by blast
  from t obtain df where
    "fst (process_file spec_env eg_batch_processor (concat eg_block_chunks) ''rt.log'') = Some df"
    "set (id_values (stream spec_env eg_streaming_processor eg_block_chunks DataFrame)) = set (id_values df)"
    by blast
  then have b: "map_option (\<lambda>df. set (id_values df))
      (fst (process_file spec_env eg_batch_processor (concat eg_block_chunks) ''rt.log''))
     = Some (set (id_values (stream spec_env eg_streaming_processor eg_block_chunks DataFrame)))"
    by simp
  from h1 h2 h3 i1 i2 a b show ?thesis by blast
qed

end
